theory Spec2Isabelle
  imports Complex_Main "HOL-Library.Char_ord" "HOL-Library.List_Lexorder"
    "HOL-Library.Product_Lexorder"
begin

section \<open>Text columns and their collation\<close>

text \<open>
  Every text column of the four tables is declared \<^verbatim>\<open>COLLATE NOCASE\<close>: SQLite folds the
  26 upper case ASCII letters to lower case before it compares two values of such a
  column. Python's \<^verbatim>\<open>str.upper()\<close>, which the source applies to device ids and PCHIDs
  it hands back, is modelled on the same 8-bit characters (letters outside ASCII are
  left alone).
\<close>

definition ascii_lower :: "char \<Rightarrow> char" where
  "ascii_lower c =
     (let n = (of_char c :: nat) in if 65 \<le> n \<and> n \<le> 90 then char_of (n + 32) else c)"

definition ascii_upper :: "char \<Rightarrow> char" where
  "ascii_upper c =
     (let n = (of_char c :: nat) in if 97 \<le> n \<and> n \<le> 122 then char_of (n - 32) else c)"

definition nocase :: "string \<Rightarrow> string" where
  "nocase s = map ascii_lower s"

definition upper :: "string \<Rightarrow> string" where
  "upper s = map ascii_upper s"

text \<open>\<^verbatim>\<open>a = b\<close> on a NOCASE column.\<close>

definition eq_nocase :: "string \<Rightarrow> string \<Rightarrow> bool" where
  "eq_nocase a b = (nocase a = nocase b)"

section \<open>The four tables\<close>

text \<open>Table \<^verbatim>\<open>fcp\<close>: one row per FCP device, primary key \<^verbatim>\<open>fcp_id\<close>.\<close>

record fcp_row =
  fcp_id :: string
  assigner_id :: string
  connections :: int
  reserved :: int
  wwpn_npiv :: string
  wwpn_phy :: string
  chpid :: string
  pchid :: string
  state :: string
  owner :: string
  tmpl_id :: string

text \<open>Table \<^verbatim>\<open>template\<close>, primary key \<^verbatim>\<open>id\<close>; \<^verbatim>\<open>is_default\<close> is an integer, 1 for true.\<close>

record template_row =
  t_id :: string
  t_name :: string
  t_description :: string
  t_is_default :: int
  t_min_fcp_paths_count :: int

text \<open>Table \<^verbatim>\<open>template_sp_mapping\<close>, primary key \<^verbatim>\<open>sp_name\<close>.\<close>

record sp_row =
  sp_name :: string
  sp_tmpl_id :: string

text \<open>Table \<^verbatim>\<open>template_fcp_mapping\<close>, primary key \<^verbatim>\<open>(fcp_id, tmpl_id)\<close>.\<close>

record tf_row =
  tf_fcp_id :: string
  tf_tmpl_id :: string
  tf_path :: int

text \<open>The database: each table is the list of its rows in storage order.\<close>

record db =
  fcp :: "fcp_row list"
  template :: "template_row list"
  template_sp_mapping :: "sp_row list"
  template_fcp_mapping :: "tf_row list"

text \<open>The primary key of table \<^verbatim>\<open>fcp\<close>: no two rows share an id, up to case.\<close>

definition fcp_primary_key :: "db \<Rightarrow> bool" where
  "fcp_primary_key d = distinct (map (\<lambda>r. nocase (fcp_id r)) (fcp d))"

subsection \<open>Statements\<close>

definition fetchone :: "'a list \<Rightarrow> 'a option" where
  "fetchone rows = (case rows of [] \<Rightarrow> None | r # _ \<Rightarrow> Some r)"

definition update_where :: "('a \<Rightarrow> bool) \<Rightarrow> ('a \<Rightarrow> 'a) \<Rightarrow> 'a list \<Rightarrow> 'a list" where
  "update_where P f rows = map (\<lambda>r. if P r then f r else r) rows"

definition delete_where :: "('a \<Rightarrow> bool) \<Rightarrow> 'a list \<Rightarrow> 'a list" where
  "delete_where P rows = filter (\<lambda>r. \<not> P r) rows"

section \<open>Errors and the transaction boundary\<close>

text \<open>What an exception is about (the \<^verbatim>\<open>obj_desc\<close> of the source, without its wording).\<close>

datatype obj_desc =
    FCP_with_id string
  | FCP_Multipath_Template string
  | Min_fcp_paths_count_of string

text \<open>The detail of a conflict: which check refused, and the devices or counts it names.\<close>

datatype conflict =
    Delete_template_inuse "string list"
  | Change_path_inuse "string list"
  | Missing_inuse_devices "string list"
  | Min_paths_too_large int nat

datatype py_exception =
    KeyError | IndexError | ValueError | TypeError | IntegrityError
  | OverflowError | ZeroDivisionError

datatype error =
    SDKObjectNotExistError obj_desc
  | SDKObjectAlreadyExistError obj_desc
  | SDKConflictError nat conflict
  | SDKGuestOperationError py_exception
  | Uncaught py_exception

text \<open>
  \<^verbatim>\<open>get_fcp_conn\<close> entered with no transaction open: BEGIN, the body, then COMMIT; an
  exception of the SDK rolls back and is raised again, any other exception rolls back
  and is raised as \<^verbatim>\<open>SDKGuestOperationError\<close>.
\<close>

fun reraise :: "error \<Rightarrow> error" where
  "reraise (Uncaught e) = SDKGuestOperationError e"
| "reraise e = e"

definition get_fcp_conn :: "(db \<Rightarrow> (error + 'a) \<times> db) \<Rightarrow> db \<Rightarrow> (error + 'a) \<times> db" where
  "get_fcp_conn body d =
     (case body d of
        (Inl e, _) \<Rightarrow> (Inl (reraise e), d)
      | (Inr v, d') \<Rightarrow> (Inr v, d'))"

section \<open>Device State Manager\<close>

text \<open>\<^verbatim>\<open>executemany\<close> runs the statement once per parameter tuple, in order.\<close>

definition unreserve_fcps :: "string list \<Rightarrow> db \<Rightarrow> (error + unit) \<times> db" where
  "unreserve_fcps fcp_ids d =
     (if fcp_ids = [] then (Inr (), d)
      else get_fcp_conn (\<lambda>d0.
        (Inr (),
         fold (\<lambda>i d1. d1\<lparr>fcp := update_where (\<lambda>r. eq_nocase (fcp_id r) i)
                                  (\<lambda>r. r\<lparr>reserved := 0, tmpl_id := []\<rparr>) (fcp d1)\<rparr>)
              fcp_ids d0)) d)"

definition reserve_fcps :: "string list \<Rightarrow> string \<Rightarrow> string \<Rightarrow> db \<Rightarrow> (error + unit) \<times> db" where
  "reserve_fcps fcp_ids assigner fcp_template_id d =
     get_fcp_conn (\<lambda>d0.
        (Inr (),
         fold (\<lambda>i d1. d1\<lparr>fcp := update_where (\<lambda>r. eq_nocase (fcp_id r) i)
                                  (\<lambda>r. r\<lparr>reserved := 1, assigner_id := assigner,
                                         tmpl_id := fcp_template_id\<rparr>) (fcp d1)\<rparr>)
              fcp_ids d0)) d"

text \<open>
  An \<^verbatim>\<open>INTEGER\<close> of SQLite is a signed 64-bit number. Python's integers have no
  bound, and binding one outside that range to a statement raises \<^verbatim>\<open>OverflowError\<close>.
\<close>

definition sqlite_integer :: "int \<Rightarrow> bool" where
  "sqlite_integer i = (- (2 ^ 63) \<le> i \<and> i \<le> 2 ^ 63 - 1)"

text \<open>
  \<^verbatim>\<open>increase_connections_by_assigner\<close>: the row is looked up and updated by id and
  assigner, the value returned is read back by id alone. The new counter is computed in
  Python and bound to the \<^verbatim>\<open>UPDATE\<close>.
\<close>

definition increase_connections_by_assigner ::
    "string \<Rightarrow> string \<Rightarrow> db \<Rightarrow> (error + int) \<times> db" where
  "increase_connections_by_assigner fcp_no assigner d =
     get_fcp_conn (\<lambda>d0.
       case fetchone (filter (\<lambda>r. eq_nocase (fcp_id r) fcp_no \<and>
                                  eq_nocase (assigner_id r) assigner) (fcp d0)) of
         None \<Rightarrow> (Inl (SDKObjectNotExistError (FCP_with_id fcp_no)), d0)
       | Some fcp_info \<Rightarrow>
           (let conns = connections fcp_info + 1
            in if \<not> sqlite_integer conns then (Inl (Uncaught OverflowError), d0)
               else
                 (let d1 = d0\<lparr>fcp := update_where
                            (\<lambda>r. eq_nocase (fcp_id r) fcp_no \<and>
                                 eq_nocase (assigner_id r) assigner)
                            (\<lambda>r. r\<lparr>connections := conns\<rparr>) (fcp d0)\<rparr>
                  in case fetchone (filter (\<lambda>r. eq_nocase (fcp_id r) fcp_no) (fcp d1)) of
                       None \<Rightarrow> (Inl (Uncaught TypeError), d1)
                     | Some row \<Rightarrow> (Inr (connections row), d1)))) d"

text \<open>
  \<^verbatim>\<open>decrease_connections\<close>: a missing row and a row whose counter is 0 both raise
  \<^verbatim>\<open>SDKObjectNotExistError\<close>; otherwise the counter is decremented, and a negative
  outcome is stored as 0.
\<close>

definition decrease_connections :: "string \<Rightarrow> db \<Rightarrow> (error + int) \<times> db" where
  "decrease_connections fcp_no d =
     get_fcp_conn (\<lambda>d0.
       case fetchone (filter (\<lambda>r. eq_nocase (fcp_id r) fcp_no) (fcp d0)) of
         None \<Rightarrow> (Inl (SDKObjectNotExistError (FCP_with_id fcp_no)), d0)
       | Some fcp_list \<Rightarrow>
           if connections fcp_list = 0
           then (Inl (SDKObjectNotExistError (FCP_with_id fcp_no)), d0)
           else
             (let conns = connections fcp_list - 1;
                  conns = (if conns < 0 then 0 else conns);
                  d1 = d0\<lparr>fcp := update_where (\<lambda>r. eq_nocase (fcp_id r) fcp_no)
                                   (\<lambda>r. r\<lparr>connections := conns\<rparr>) (fcp d0)\<rparr>
              in case fetchone (filter (\<lambda>r. eq_nocase (fcp_id r) fcp_no) (fcp d1)) of
                   None \<Rightarrow> (Inl (Uncaught TypeError), d1)
                 | Some row \<Rightarrow> (Inr (connections row), d1))) d"

section \<open>Template Manager\<close>

subsection \<open>Queries\<close>

definition fcp_template_exist_in_db :: "string \<Rightarrow> db \<Rightarrow> bool" where
  "fcp_template_exist_in_db fcp_template_id d =
     (filter (\<lambda>t. eq_nocase (t_id t) fcp_template_id) (template d) \<noteq> [])"

definition sp_name_exist_in_db :: "string \<Rightarrow> db \<Rightarrow> bool" where
  "sp_name_exist_in_db sp d =
     (filter (\<lambda>s. eq_nocase (sp_name s) sp) (template_sp_mapping d) \<noteq> [])"

text \<open>The ids of the devices whose \<^verbatim>\<open>tmpl_id\<close> is the given template.\<close>

definition get_inuse_fcp_device_by_fcp_template :: "string \<Rightarrow> db \<Rightarrow> string list" where
  "get_inuse_fcp_device_by_fcp_template fcp_template_id d =
     map fcp_id (filter (\<lambda>r. eq_nocase (tmpl_id r) fcp_template_id) (fcp d))"

text \<open>\<^verbatim>\<open>SELECT DISTINCT path\<close> of the template's mapping rows, counted.\<close>

definition get_path_count :: "string \<Rightarrow> db \<Rightarrow> nat" where
  "get_path_count fcp_template_id d =
     length (remdups (map tf_path
       (filter (\<lambda>m. eq_nocase (tf_tmpl_id m) fcp_template_id) (template_fcp_mapping d))))"

definition get_min_fcp_paths_count_from_db :: "string \<Rightarrow> db \<Rightarrow> int option" where
  "get_min_fcp_paths_count_from_db fcp_template_id d =
     map_option t_min_fcp_paths_count
       (fetchone (filter (\<lambda>t. eq_nocase (t_id t) fcp_template_id) (template d)))"

text \<open>
  The effective minimum path count: the stored value, or the path count of the template
  when the stored value is -1; an empty id or an unknown template raises.
\<close>

definition get_min_fcp_paths_count :: "string \<Rightarrow> db \<Rightarrow> error + int" where
  "get_min_fcp_paths_count fcp_template_id d =
     (let min_fcp_paths_count =
            (if fcp_template_id = [] then None
             else (case get_min_fcp_paths_count_from_db fcp_template_id d of
                     None \<Rightarrow> None
                   | Some c \<Rightarrow> if c = - 1 then Some (int (get_path_count fcp_template_id d))
                               else Some c))
      in case min_fcp_paths_count of
           None \<Rightarrow> Inl (SDKObjectNotExistError (Min_fcp_paths_count_of fcp_template_id))
         | Some c \<Rightarrow> Inr c)"

subsection \<open>Statements that can fail\<close>

text \<open>Sequencing: an exception ends the block, with the database as it then is.\<close>

definition and_then ::
    "(error + 'a) \<times> db \<Rightarrow> ('a \<Rightarrow> db \<Rightarrow> (error + 'b) \<times> db) \<Rightarrow> (error + 'b) \<times> db" where
  "and_then r k = (case r of (Inl e, d) \<Rightarrow> (Inl e, d) | (Inr v, d) \<Rightarrow> k v d)"

fun executemany ::
    "('p \<Rightarrow> db \<Rightarrow> (error + unit) \<times> db) \<Rightarrow> 'p list \<Rightarrow> db \<Rightarrow> (error + unit) \<times> db" where
  "executemany stmt [] d = (Inr (), d)"
| "executemany stmt (p # ps) d = and_then (stmt p d) (\<lambda>_. executemany stmt ps)"

text \<open>An INSERT whose key is already in the table raises \<^verbatim>\<open>sqlite3.IntegrityError\<close>.\<close>

definition insert_template :: "template_row \<Rightarrow> db \<Rightarrow> (error + unit) \<times> db" where
  "insert_template row d =
     (if \<exists>t\<in>set (template d). eq_nocase (t_id t) (t_id row)
      then (Inl (Uncaught IntegrityError), d)
      else (Inr (), d\<lparr>template := template d @ [row]\<rparr>))"

definition insert_template_fcp_mapping :: "tf_row \<Rightarrow> db \<Rightarrow> (error + unit) \<times> db" where
  "insert_template_fcp_mapping row d =
     (if \<exists>m\<in>set (template_fcp_mapping d).
           eq_nocase (tf_fcp_id m) (tf_fcp_id row) \<and> eq_nocase (tf_tmpl_id m) (tf_tmpl_id row)
      then (Inl (Uncaught IntegrityError), d)
      else (Inr (), d\<lparr>template_fcp_mapping := template_fcp_mapping d @ [row]\<rparr>))"

definition insert_template_sp_mapping :: "sp_row \<Rightarrow> db \<Rightarrow> (error + unit) \<times> db" where
  "insert_template_sp_mapping row d =
     (if \<exists>s\<in>set (template_sp_mapping d). eq_nocase (sp_name s) (sp_name row)
      then (Inl (Uncaught IntegrityError), d)
      else (Inr (), d\<lparr>template_sp_mapping := template_sp_mapping d @ [row]\<rparr>))"

subsection \<open>create and delete\<close>

text \<open>\<^verbatim>\<open>UPDATE template SET is_default=False\<close>: every row.\<close>

definition clear_is_default :: "db \<Rightarrow> db" where
  "clear_is_default d =
     d\<lparr>template := update_where (\<lambda>_. True) (\<lambda>t. t\<lparr>t_is_default := 0\<rparr>) (template d)\<rparr>"

text \<open>
  \<^verbatim>\<open>create_fcp_template\<close>. \<^verbatim>\<open>fcp_devices_by_path\<close> is the dictionary from path to
  device ids, in the order Python iterates it; \<^verbatim>\<open>host_default\<close> is a \<^verbatim>\<open>bool\<close>;
  \<^verbatim>\<open>default_sp_list\<close> and \<^verbatim>\<open>min_fcp_paths_count\<close> may be \<^verbatim>\<open>None\<close>. A minimum that
  is \<^verbatim>\<open>None\<close> or 0 leaves the column at its default -1.
\<close>

definition create_fcp_template ::
    "string \<Rightarrow> string \<Rightarrow> string \<Rightarrow> (int \<times> string list) list \<Rightarrow> bool \<Rightarrow> string list option \<Rightarrow>
     int option \<Rightarrow> db \<Rightarrow> (error + unit) \<times> db" where
  "create_fcp_template fcp_template_id name description fcp_devices_by_path host_default
       default_sp_list min_fcp_paths_count d =
     get_fcp_conn (\<lambda>d0.
       if fcp_template_exist_in_db fcp_template_id d0
       then (Inl (SDKObjectAlreadyExistError (FCP_Multipath_Template fcp_template_id)), d0)
       else
         (let sp_list = (case default_sp_list of None \<Rightarrow> [] | Some l \<Rightarrow> l);
              sp_mapping_to_update = filter (\<lambda>sp. sp_name_exist_in_db sp d0) sp_list;
              sp_mapping_to_add = filter (\<lambda>sp. \<not> sp_name_exist_in_db sp d0) sp_list;
              fcp_mapping = concat (map (\<lambda>(path, fcps).
                  map (\<lambda>f. \<lparr>tf_fcp_id = f, tf_tmpl_id = fcp_template_id, tf_path = path\<rparr>) fcps)
                fcp_devices_by_path);
              d1 = (if host_default then clear_is_default d0 else d0);
              tmpl_basics =
                \<lparr>t_id = fcp_template_id, t_name = name, t_description = description,
                 t_is_default = (if host_default then 1 else 0),
                 t_min_fcp_paths_count =
                   (case min_fcp_paths_count of
                      None \<Rightarrow> - 1
                    | Some c \<Rightarrow> if c = 0 then - 1 else c)\<rparr>
          in and_then (insert_template tmpl_basics d1) (\<lambda>_ d2.
             and_then (executemany insert_template_fcp_mapping fcp_mapping d2) (\<lambda>_ d3.
             and_then (executemany insert_template_sp_mapping
                         (map (\<lambda>sp. \<lparr>sp_name = sp, sp_tmpl_id = fcp_template_id\<rparr>)
                              sp_mapping_to_add) d3) (\<lambda>_ d4.
               (Inr (),
                fold (\<lambda>sp d5. d5\<lparr>template_sp_mapping :=
                        update_where (\<lambda>s. eq_nocase (sp_name s) sp)
                          (\<lambda>s. s\<lparr>sp_tmpl_id := fcp_template_id\<rparr>) (template_sp_mapping d5)\<rparr>)
                     sp_mapping_to_update d4)))))) d"

text \<open>
  \<^verbatim>\<open>delete_fcp_template\<close>. The conflict names the devices in use (the source prints them
  in the shortened form of \<^verbatim>\<open>utils.shrink_fcp_list\<close>).
\<close>

definition delete_fcp_template :: "string \<Rightarrow> db \<Rightarrow> (error + unit) \<times> db" where
  "delete_fcp_template template_id d =
     get_fcp_conn (\<lambda>d0.
       if \<not> fcp_template_exist_in_db template_id d0
       then (Inl (SDKObjectNotExistError (FCP_Multipath_Template template_id)), d0)
       else
         (let inuse_fcp_devices = get_inuse_fcp_device_by_fcp_template template_id d0
          in if inuse_fcp_devices \<noteq> []
             then (Inl (SDKConflictError 22 (Delete_template_inuse inuse_fcp_devices)), d0)
             else
               (Inr (),
                d0\<lparr>template := delete_where (\<lambda>t. eq_nocase (t_id t) template_id) (template d0),
                   template_sp_mapping :=
                     delete_where (\<lambda>s. eq_nocase (sp_tmpl_id s) template_id)
                       (template_sp_mapping d0),
                   template_fcp_mapping :=
                     delete_where (\<lambda>m. eq_nocase (tf_tmpl_id m) template_id)
                       (template_fcp_mapping d0)\<rparr>))) d"

text \<open>
  The \<^verbatim>\<open>host_default\<close> member of the record handed to
  \<^verbatim>\<open>update_basic_info_of_fcp_template\<close>: the caller's \<^verbatim>\<open>bool\<close>, or the integer of
  column \<^verbatim>\<open>is_default\<close> when the caller passed \<^verbatim>\<open>None\<close>. Only the former can be
  \<^verbatim>\<open>True\<close> itself. The minimum is the caller's integer when one was passed; one that is
  no \<^verbatim>\<open>INTEGER\<close> of SQLite cannot be bound to the \<^verbatim>\<open>UPDATE\<close>.
\<close>

datatype py_flag = PyBool bool | DbInt int

fun flag_value :: "py_flag \<Rightarrow> int" where
  "flag_value (PyBool b) = (if b then 1 else 0)"
| "flag_value (DbInt i) = i"

definition update_basic_info_of_fcp_template ::
    "string \<times> string \<times> py_flag \<times> int \<times> string \<Rightarrow> db \<Rightarrow> (error + unit) \<times> db" where
  "update_basic_info_of_fcp_template record d =
     (case record of (name, description, host_default, min_fcp_paths_count, fcp_template_id) \<Rightarrow>
        get_fcp_conn (\<lambda>d0.
          (let d1 = (if host_default = PyBool True then clear_is_default d0 else d0)
           in if \<not> sqlite_integer min_fcp_paths_count
              then (Inl (Uncaught OverflowError), d1)
              else
                (Inr (),
                 d1\<lparr>template := update_where (\<lambda>t. eq_nocase (t_id t) fcp_template_id)
                      (\<lambda>t. t\<lparr>t_name := name, t_description := description,
                             t_is_default := flag_value host_default,
                             t_min_fcp_paths_count := min_fcp_paths_count\<rparr>) (template d1)\<rparr>))) d)"

text \<open>The invariant of table \<^verbatim>\<open>template\<close>: at most one row has \<^verbatim>\<open>is_default\<close> set.\<close>

definition default_templates :: "db \<Rightarrow> template_row list" where
  "default_templates d = filter (\<lambda>t. t_is_default t \<noteq> 0) (template d)"

definition at_most_one_default :: "db \<Rightarrow> bool" where
  "at_most_one_default d = (length (default_templates d) \<le> 1)"

section \<open>Allocation Engine\<close>

subsection \<open>What the engine reads\<close>

text \<open>The five conditions of the SQL, on a row of table \<^verbatim>\<open>fcp\<close>.\<close>

definition available :: "fcp_row \<Rightarrow> bool" where
  "available r =
     (connections r = 0 \<and> reserved r = 0 \<and> eq_nocase (state r) ''free'' \<and>
      wwpn_npiv r \<noteq> [] \<and> wwpn_phy r \<noteq> [])"

text \<open>
  \<^verbatim>\<open>template_fcp_mapping AS tf INNER JOIN fcp ON tf.fcp_id=fcp.fcp_id WHERE tf.tmpl_id=?\<close>
\<close>

definition template_join :: "string \<Rightarrow> db \<Rightarrow> (tf_row \<times> fcp_row) list" where
  "template_join fcp_template_id d =
     concat (map (\<lambda>m. map (\<lambda>r. (m, r))
                          (filter (\<lambda>r. eq_nocase (tf_fcp_id m) (fcp_id r)) (fcp d)))
                 (filter (\<lambda>m. eq_nocase (tf_tmpl_id m) fcp_template_id)
                         (template_fcp_mapping d)))"

text \<open>The paths of a template on which some device is available.\<close>

definition free_paths :: "string \<Rightarrow> db \<Rightarrow> int set" where
  "free_paths fcp_template_id d =
     (\<lambda>(m, r). tf_path m) `
       set (filter (\<lambda>(m, r). available r) (template_join fcp_template_id d))"

text \<open>What the engine returns for a device.\<close>

record fcp_item =
  i_fcp_id :: string
  i_wwpn_npiv :: string
  i_wwpn_phy :: string
  i_path :: int
  i_pchid :: string

text \<open>
  The capacity snapshot \<^verbatim>\<open>pchid_info\<close>: a dictionary from PCHID to its \<^verbatim>\<open>allocated\<close>
  and \<^verbatim>\<open>max\<close> counts, as the list of its items.
\<close>

type_synonym pchid_info = "(string \<times> int \<times> int) list"

text \<open>
  \<^verbatim>\<open>free_count_in_pchid_info\<close>: the free count \<^verbatim>\<open>max - allocated\<close> under the upper
  case PCHID; a later item of the snapshot overwrites an earlier one of the same key.
\<close>

definition free_count_in_pchid_info :: "pchid_info \<Rightarrow> string \<Rightarrow> int option" where
  "free_count_in_pchid_info pchid_info =
     map_of (rev (map (\<lambda>(p, allocated, mx). (upper p, mx - allocated)) pchid_info))"

text \<open>The reason handed back with an empty list (\<^verbatim>\<open>No_reason\<close> is the empty string).\<close>

datatype reason =
    No_reason
  | No_device_in_template string
  | Paths_without_free_devices nat string
  | No_same_index_combination string
  | Not_enough_free_capacity "(string \<times> int) list" string
  | No_free_device_left string
  | Free_paths_below_minimum string nat int

text \<open>
  \<^verbatim>\<open>random.choice\<close>, with the number the generator draws as an argument; an empty
  sequence raises \<^verbatim>\<open>IndexError\<close>.
\<close>

definition random_choice :: "nat \<Rightarrow> 'a list \<Rightarrow> error + 'a" where
  "random_choice n xs = (if xs = [] then Inl (Uncaught IndexError) else Inr (xs ! (n mod length xs)))"

subsection \<open>Weights\<close>

text \<open>
  The weights of one combination of PCHIDs: for each PCHID that occurs, its free count
  divided by the number of its occurrences. A PCHID the snapshot does not know raises
  \<^verbatim>\<open>KeyError\<close>. Python's true division is modelled by exact rational division.
\<close>

fun weights_of :: "(string \<Rightarrow> int option) \<Rightarrow> (string \<times> nat) list \<Rightarrow> error + (string \<times> int \<times> rat) list" where
  "weights_of free [] = Inr []"
| "weights_of free ((p, c) # pcs) =
     (case free p of
        None \<Rightarrow> Inl (Uncaught KeyError)
      | Some f \<Rightarrow>
          (case weights_of free pcs of
             Inl e \<Rightarrow> Inl e
           | Inr ws \<Rightarrow> Inr ((p, f, rat_of_int f / rat_of_nat c) # ws)))"

definition comb_fcp_count_per_pchid :: "string list \<Rightarrow> (string \<times> nat) list" where
  "comb_fcp_count_per_pchid pchids = map (\<lambda>p. (p, count_list pchids p)) (remdups pchids)"

text \<open>
  The loop of \<^verbatim>\<open>_calculate_weight\<close>: each combination gets the minimum of its weights
  (\<^verbatim>\<open>min\<close> of no weights raises \<^verbatim>\<open>ValueError\<close>), and every PCHID whose weight is
  below 1 is noted with its free count.
\<close>

fun calculate_weight_loop ::
    "(string \<Rightarrow> int option) \<Rightarrow> (int \<times> string) list list \<Rightarrow> (string \<times> int) list \<Rightarrow>
     error + (((int \<times> string) list \<times> rat) list \<times> (string \<times> int) list)" where
  "calculate_weight_loop free [] without = Inr ([], without)"
| "calculate_weight_loop free (comb # combs) without =
     (case weights_of free (comb_fcp_count_per_pchid (map snd comb)) of
        Inl e \<Rightarrow> Inl e
      | Inr weights \<Rightarrow>
          if weights = [] then Inl (Uncaught ValueError)
          else
            (let without' = without @
                   map (\<lambda>(p, f, w). (p, f)) (filter (\<lambda>(p, f, w). w < 1) weights);
                 weight = Min (set (map (\<lambda>(p, f, w). w) weights))
             in case calculate_weight_loop free combs without' of
                  Inl e \<Rightarrow> Inl e
                | Inr (weighted, without'') \<Rightarrow> Inr ((comb, weight) # weighted, without'')))"

definition calculate_weight ::
    "pchid_info \<Rightarrow> (int \<times> string) list list \<Rightarrow>
     error + (((int \<times> string) list \<times> rat) list \<times> (string \<times> int) list)" where
  "calculate_weight pchid_info combs =
     calculate_weight_loop (free_count_in_pchid_info pchid_info) combs []"

definition remove_invalid_weight ::
    "((int \<times> string) list \<times> rat) list \<Rightarrow> ((int \<times> string) list \<times> rat) list" where
  "remove_invalid_weight weighted = filter (\<lambda>(comb, weight). \<not> weight < 1) weighted"

definition select_max_weight ::
    "((int \<times> string) list \<times> rat) list \<Rightarrow> ((int \<times> string) list \<times> rat) list" where
  "select_max_weight weighted =
     (let max_weight = Max (set (map snd weighted))
      in filter (\<lambda>(comb, weight). \<not> weight \<noteq> max_weight) weighted)"

definition select_most_distributed_pchids ::
    "((int \<times> string) list \<times> rat) list \<Rightarrow> (int \<times> string) list list" where
  "select_most_distributed_pchids weighted =
     (let combs = map fst weighted;
          max_pchid_count = Max (set (map (\<lambda>comb. length (remdups (map snd comb))) combs))
      in filter (\<lambda>comb. \<not> length (remdups (map snd comb)) \<noteq> max_pchid_count) combs)"

text \<open>
  The weight as the specification words it. The weight of a group within a combination
  is the free capacity of the group divided by the number of times the combination
  uses it; it is undefined for a group the snapshot does not list. The weight of a
  combination is the minimum of the weights of its groups.
\<close>

definition spec_weight_of_group :: "pchid_info \<Rightarrow> (int \<times> string) list \<Rightarrow> string \<Rightarrow> rat option" where
  "spec_weight_of_group pchid_info comb p =
     (case free_count_in_pchid_info pchid_info p of
        None \<Rightarrow> None
      | Some f \<Rightarrow> Some (rat_of_int f / rat_of_nat (count_list (map snd comb) p)))"

definition spec_weight_of_combination :: "pchid_info \<Rightarrow> (int \<times> string) list \<Rightarrow> rat option" where
  "spec_weight_of_combination pchid_info comb =
     (if comb = [] \<or> (\<exists>p\<in>snd ` set comb. spec_weight_of_group pchid_info comb p = None)
      then None
      else Some (Min ((\<lambda>p. the (spec_weight_of_group pchid_info comb p)) ` snd ` set comb)))"

subsection \<open>Strategy B: \<^verbatim>\<open>get_fcp_devices\<close>\<close>

text \<open>A Python dictionary of lists, as the list of its items in insertion order.\<close>

fun dict_append :: "'k \<Rightarrow> 'v \<Rightarrow> ('k \<times> 'v list) list \<Rightarrow> ('k \<times> 'v list) list" where
  "dict_append k v [] = [(k, [v])]"
| "dict_append k v ((k', vs) # kvs) =
     (if k = k' then (k', vs @ [v]) # kvs else (k', vs) # dict_append k v kvs)"

text \<open>
  \<^verbatim>\<open>get_free_pchids_by_fcp_template\<close>: \<^verbatim>\<open>SELECT DISTINCT path, pchid ... ORDER BY path,
  pchid\<close> over the available devices of the template, grouped by path with each PCHID in
  upper case. Which spelling \<^verbatim>\<open>DISTINCT\<close> keeps of two PCHIDs that differ in case only
  does not matter after \<^verbatim>\<open>upper()\<close>; the model takes the folded one.
\<close>

definition get_free_pchids_by_fcp_template :: "string \<Rightarrow> db \<Rightarrow> (int \<times> string list) list" where
  "get_free_pchids_by_fcp_template fcp_template_id d =
     fold (\<lambda>(path, p) pchids. dict_append path (upper p) pchids)
          (sort (remdups (map (\<lambda>(m, r). (tf_path m, nocase (pchid r)))
                   (filter (\<lambda>(m, r). available r) (template_join fcp_template_id d)))))
          []"

text \<open>Reading such a dictionary, and the rows the query above delivers.\<close>

definition dict_get :: "('k \<times> 'v list) list \<Rightarrow> 'k \<Rightarrow> 'v list" where
  "dict_get d k = (case map_of d k of None \<Rightarrow> [] | Some vs \<Rightarrow> vs)"

definition free_join :: "string \<Rightarrow> db \<Rightarrow> (tf_row \<times> fcp_row) list" where
  "free_join fcp_template_id d = filter (\<lambda>(m, r). available r) (template_join fcp_template_id d)"

definition free_rows :: "string \<Rightarrow> db \<Rightarrow> (int \<times> string) list" where
  "free_rows fcp_template_id d =
     sort (remdups (map (\<lambda>(m, r). (tf_path m, nocase (pchid r))) (free_join fcp_template_id d)))"

text \<open>\<^verbatim>\<open>itertools.combinations\<close>, in its order.\<close>

fun combinations :: "'a list \<Rightarrow> nat \<Rightarrow> 'a list list" where
  "combinations xs 0 = [[]]"
| "combinations [] (Suc k) = []"
| "combinations (x # xs) (Suc k) = map ((#) x) (combinations xs k) @ combinations xs (Suc k)"

text \<open>
  The combinations tried for one path count: every choice of that many free paths, in
  ascending order of path, and for each every choice of one PCHID per chosen path
  (\<^verbatim>\<open>itertools.product\<close> is \<^const>\<open>product_lists\<close>). A negative count makes
  \<^verbatim>\<open>itertools.combinations\<close> raise \<^verbatim>\<open>ValueError\<close>.
\<close>

definition pchids_per_path_combinations ::
    "(int \<times> string list) list \<Rightarrow> int \<Rightarrow> error + (int \<times> string) list list" where
  "pchids_per_path_combinations free_pchids_per_path path_cnt =
     (if path_cnt < 0 then Inl (Uncaught ValueError)
      else Inr (concat (map (\<lambda>path_idx_comb.
                   map (\<lambda>comb. zip (map fst path_idx_comb) comb)
                       (product_lists (map snd path_idx_comb)))
                 (combinations (sort_key fst free_pchids_per_path) (nat path_cnt)))))"

fun pick_each :: "(nat \<Rightarrow> nat) \<Rightarrow> nat \<Rightarrow> 'a list list \<Rightarrow> error + 'a list" where
  "pick_each rnd j [] = Inr []"
| "pick_each rnd j (xs # xss) =
     (case random_choice (rnd j) xs of
        Inl e \<Rightarrow> Inl e
      | Inr x \<Rightarrow> (case pick_each rnd (Suc j) xss of Inl e \<Rightarrow> Inl e | Inr ys \<Rightarrow> Inr (x # ys)))"

definition item_of :: "tf_row \<times> fcp_row \<Rightarrow> fcp_item" where
  "item_of f =
     \<lparr>i_fcp_id = upper (fcp_id (snd f)), i_wwpn_npiv = wwpn_npiv (snd f),
      i_wwpn_phy = wwpn_phy (snd f), i_path = tf_path (fst f), i_pchid = upper (pchid (snd f))\<rparr>"

text \<open>
  \<^verbatim>\<open>_get_one_random_fcp_combinations\<close>: the available devices of the template on the
  chosen (path, PCHID) pairs, ordered by path, PCHID and id, grouped by path, and one
  drawn per path. The draws use \<^verbatim>\<open>rnd 1\<close>, \<^verbatim>\<open>rnd 2\<close>, ... in the order of the paths.
\<close>

definition get_one_random_fcp_combinations ::
    "string \<Rightarrow> (int \<times> string) list \<Rightarrow> (nat \<Rightarrow> nat) \<Rightarrow> db \<Rightarrow> error + fcp_item list" where
  "get_one_random_fcp_combinations fcp_template_id final_pchid_per_path rnd d =
     (let fcps = sort_key (\<lambda>(m, r). (tf_path m, nocase (pchid r), nocase (fcp_id r)))
                   (filter (\<lambda>(m, r). available r \<and>
                              (\<exists>(path, p)\<in>set final_pchid_per_path.
                                  tf_path m = path \<and> eq_nocase (pchid r) p))
                           (template_join fcp_template_id d));
          tmp_dict = map (\<lambda>(path, p). map item_of (filter (\<lambda>(m, r). tf_path m = path) fcps))
                         final_pchid_per_path
      in pick_each rnd 1 tmp_dict)"

text \<open>
  The loop over the path counts. The combinations of one count are weighed; when some
  have weight at least 1, one of the best is drawn (\<^verbatim>\<open>rnd 0\<close>), its devices are
  drawn, and the loop ends. The PCHIDs noted as short of capacity are those of the last
  count tried.
\<close>

fun try_path_counts ::
    "string \<Rightarrow> pchid_info \<Rightarrow> (nat \<Rightarrow> nat) \<Rightarrow> db \<Rightarrow> (int \<times> string list) list \<Rightarrow> int list \<Rightarrow>
     (string \<times> int) list \<Rightarrow> error + (fcp_item list \<times> (string \<times> int) list)" where
  "try_path_counts fcp_template_id pchid_info rnd d free_pchids_per_path [] without =
     Inr ([], without)"
| "try_path_counts fcp_template_id pchid_info rnd d free_pchids_per_path (path_cnt # rest) without =
     (case pchids_per_path_combinations free_pchids_per_path path_cnt of
        Inl e \<Rightarrow> Inl e
      | Inr combs \<Rightarrow>
          (case calculate_weight pchid_info combs of
             Inl e \<Rightarrow> Inl e
           | Inr (weighted, without') \<Rightarrow>
               (let valid = remove_invalid_weight weighted
                in if valid \<noteq> []
                   then
                     (case random_choice (rnd 0)
                             (select_most_distributed_pchids (select_max_weight valid)) of
                        Inl e \<Rightarrow> Inl e
                      | Inr final_pchid_per_path \<Rightarrow>
                          (case get_one_random_fcp_combinations fcp_template_id
                                  final_pchid_per_path rnd d of
                             Inl e \<Rightarrow> Inl e
                           | Inr fcp_list \<Rightarrow> Inr (fcp_list, without')))
                   else try_path_counts fcp_template_id pchid_info rnd d free_pchids_per_path
                          rest without')))"

text \<open>
  One turn of the loop up to \<^verbatim>\<open>_remove_invalid_weight\<close>: the combinations of a path
  count that survive, with their weights.
\<close>

definition surviving_combinations ::
    "pchid_info \<Rightarrow> (int \<times> string list) list \<Rightarrow> int \<Rightarrow> error + ((int \<times> string) list \<times> rat) list" where
  "surviving_combinations pchid_info free_pchids_per_path path_cnt =
     (case pchids_per_path_combinations free_pchids_per_path path_cnt of
        Inl e \<Rightarrow> Inl e
      | Inr combs \<Rightarrow>
          (case calculate_weight pchid_info combs of
             Inl e \<Rightarrow> Inl e
           | Inr (weighted, without) \<Rightarrow> Inr (remove_invalid_weight weighted)))"

text \<open>
  \<^verbatim>\<open>get_fcp_devices\<close>. The whole body runs inside \<^verbatim>\<open>get_fcp_conn\<close>, which turns an
  exception that is not of the SDK into \<^verbatim>\<open>SDKGuestOperationError\<close>; nothing is written.
\<close>

definition get_fcp_devices ::
    "string \<Rightarrow> pchid_info \<Rightarrow> (nat \<Rightarrow> nat) \<Rightarrow> db \<Rightarrow> error + (fcp_item list \<times> reason)" where
  "get_fcp_devices fcp_template_id pchid_info rnd d =
     fst (get_fcp_conn (\<lambda>d0.
       (let free_pchids_per_path = get_free_pchids_by_fcp_template fcp_template_id d0
        in if free_pchids_per_path = []
           then Inr ([], No_free_device_left fcp_template_id)
           else
             (case get_min_fcp_paths_count fcp_template_id d0 of
                Inl e \<Rightarrow> Inl e
              | Inr min_path_count \<Rightarrow>
                  (let free_path_count = length free_pchids_per_path
                   in if int free_path_count < min_path_count
                      then Inr ([], Free_paths_below_minimum fcp_template_id free_path_count
                                      min_path_count)
                      else
                        (case try_path_counts fcp_template_id pchid_info rnd d0
                                free_pchids_per_path
                                (rev [min_path_count..int free_path_count]) [] of
                           Inl e \<Rightarrow> Inl e
                         | Inr (fcp_list, without) \<Rightarrow>
                             if fcp_list = []
                             then Inr ([], Not_enough_free_capacity (sort (remdups without))
                                             fcp_template_id)
                             else Inr (fcp_list, No_reason)))),
        d0)) d)"

subsection \<open>Strategy A: \<^verbatim>\<open>get_fcp_devices_with_same_index\<close>\<close>

text \<open>A row of \<^verbatim>\<open>fcps\<close> and the tuple kept for it.\<close>

type_synonym fcp_tuple = "string \<times> string \<times> string \<times> int \<times> string"

definition tuple_of :: "tf_row \<times> fcp_row \<Rightarrow> fcp_tuple" where
  "tuple_of f = (fcp_id (snd f), wwpn_npiv (snd f), wwpn_phy (snd f), tf_path (fst f), pchid (snd f))"

text \<open>The test of the two loops, in Python: \<^verbatim>\<open>connections == reserved == 0 and state == 'free'\<close>.\<close>

definition free_in_python :: "tf_row \<times> fcp_row \<Rightarrow> bool" where
  "free_in_python f =
     (connections (snd f) = reserved (snd f) \<and> reserved (snd f) = 0 \<and> state (snd f) = ''free'')"

text \<open>\<^verbatim>\<open>SELECT COUNT(path) ... GROUP BY path ORDER BY path\<close>\<close>

definition count_by_path :: "int list \<Rightarrow> nat list" where
  "count_by_path paths = map (\<lambda>p. count_list paths p) (sort (remdups paths))"

text \<open>
  The first loop: index \<^verbatim>\<open>i\<close> of the first path opens a pair when its device is free.
  \<^verbatim>\<open>fcps[i]\<close> beyond the end raises \<^verbatim>\<open>IndexError\<close>.
\<close>

fun first_path_pairs ::
    "(tf_row \<times> fcp_row) list \<Rightarrow> nat list \<Rightarrow> error + (nat \<times> fcp_tuple list) list" where
  "first_path_pairs fcps [] = Inr []"
| "first_path_pairs fcps (i # is) =
     (if length fcps \<le> i then Inl (Uncaught IndexError)
      else (case first_path_pairs fcps is of
              Inl e \<Rightarrow> Inl e
            | Inr m \<Rightarrow> Inr (if free_in_python (fcps ! i) then (i, [tuple_of (fcps ! i)]) # m
                            else m)))"

text \<open>
  The inner loop for one index \<^verbatim>\<open>idx\<close>: \<^verbatim>\<open>s\<close> is the running sum of the counts,
  \<^verbatim>\<open>i\<close> the position in \<^verbatim>\<open>count_per_path[:-1]\<close>. \<^verbatim>\<open>None\<close> is the pair popped.
\<close>

fun extend_pair ::
    "(tf_row \<times> fcp_row) list \<Rightarrow> nat list \<Rightarrow> nat \<Rightarrow> nat \<Rightarrow> nat \<Rightarrow> nat list \<Rightarrow> fcp_tuple list \<Rightarrow>
     error + fcp_tuple list option" where
  "extend_pair fcps count_per_path idx s i [] pair = Inr (Some pair)"
| "extend_pair fcps count_per_path idx s i (c # cs) pair =
     (if length fcps \<le> s + c + idx then Inl (Uncaught IndexError)
      else if idx < count_per_path ! (i + 1) \<and> free_in_python (fcps ! (s + c + idx))
      then extend_pair fcps count_per_path idx (s + c) (i + 1) cs
             (pair @ [tuple_of (fcps ! (s + c + idx))])
      else Inr None)"

fun extend_pairs ::
    "(tf_row \<times> fcp_row) list \<Rightarrow> nat list \<Rightarrow> (nat \<times> fcp_tuple list) list \<Rightarrow>
     error + (nat \<times> fcp_tuple list) list" where
  "extend_pairs fcps count_per_path [] = Inr []"
| "extend_pairs fcps count_per_path ((idx, pair) # rest) =
     (case extend_pair fcps count_per_path idx 0 0 (butlast count_per_path) pair of
        Inl e \<Rightarrow> Inl e
      | Inr r \<Rightarrow>
          (case extend_pairs fcps count_per_path rest of
             Inl e \<Rightarrow> Inl e
           | Inr m \<Rightarrow> Inr (case r of None \<Rightarrow> m | Some pair' \<Rightarrow> (idx, pair') # m)))"

text \<open>
  \<^verbatim>\<open>_remove_invalid_combinations\<close>: as \<^verbatim>\<open>_calculate_weight\<close> and
  \<^verbatim>\<open>_remove_invalid_weight\<close>, on the upper case PCHIDs of the tuples.
\<close>

fun remove_invalid_combinations ::
    "(string \<Rightarrow> int option) \<Rightarrow> fcp_tuple list list \<Rightarrow> (string \<times> int) list \<Rightarrow>
     error + (fcp_tuple list list \<times> (string \<times> int) list)" where
  "remove_invalid_combinations free [] without = Inr ([], without)"
| "remove_invalid_combinations free (comb # combs) without =
     (case weights_of free
             (comb_fcp_count_per_pchid (map (\<lambda>(fcp_no, npiv, phy, path, p). upper p) comb)) of
        Inl e \<Rightarrow> Inl e
      | Inr weights \<Rightarrow>
          if weights = [] then Inl (Uncaught ValueError)
          else
            (let without' = without @
                   map (\<lambda>(p, f, w). (p, f)) (filter (\<lambda>(p, f, w). w < 1) weights);
                 weight = Min (set (map (\<lambda>(p, f, w). w) weights))
             in case remove_invalid_combinations free combs without' of
                  Inl e \<Rightarrow> Inl e
                | Inr (kept, without'') \<Rightarrow>
                    Inr (if weight < 1 then kept else comb # kept, without'')))"

text \<open>
  \<^verbatim>\<open>get_fcp_devices_with_same_index\<close>. The three queries run inside
  \<^verbatim>\<open>get_fcp_conn\<close>; the loops, the capacity filter and the draw (\<^verbatim>\<open>rnd 0\<close>) run after
  it, so their Python exceptions reach the caller as they are.
\<close>

definition get_fcp_devices_with_same_index ::
    "string \<Rightarrow> pchid_info \<Rightarrow> (nat \<Rightarrow> nat) \<Rightarrow> db \<Rightarrow> error + (fcp_item list \<times> reason)" where
  "get_fcp_devices_with_same_index fcp_template_id pchid_info rnd d =
     (let count_per_path = count_by_path (map tf_path
            (filter (\<lambda>m. eq_nocase (tf_tmpl_id m) fcp_template_id) (template_fcp_mapping d)))
      in if count_per_path = []
         then Inr ([], No_device_in_template fcp_template_id)
         else
           (let free_count_per_path = count_by_path (map (\<lambda>(m, r). tf_path m)
                  (filter (\<lambda>(m, r). available r) (template_join fcp_template_id d)))
            in if length free_count_per_path < length count_per_path
               then Inr ([], Paths_without_free_devices
                               (length count_per_path - length free_count_per_path)
                               fcp_template_id)
               else
                 (let fcps = sort_key (\<lambda>(m, r). (tf_path m, nocase (tf_fcp_id m)))
                               (template_join fcp_template_id d)
                  in case first_path_pairs fcps [0..<Min (set count_per_path)] of
                       Inl e \<Rightarrow> Inl e
                     | Inr fcp_pair_map \<Rightarrow>
                         (case extend_pairs fcps count_per_path fcp_pair_map of
                            Inl e \<Rightarrow> Inl e
                          | Inr fcp_pair_map' \<Rightarrow>
                              (let fcp_combinations = map snd fcp_pair_map'
                               in if fcp_combinations = []
                                  then Inr ([], No_same_index_combination fcp_template_id)
                                  else
                                    (case remove_invalid_combinations
                                            (free_count_in_pchid_info pchid_info)
                                            fcp_combinations [] of
                                       Inl e \<Rightarrow> Inl e
                                     | Inr (kept, without) \<Rightarrow>
                                         if kept = []
                                         then Inr ([], Not_enough_free_capacity
                                                         (sort (remdups without))
                                                         fcp_template_id)
                                         else
                                           (case random_choice (rnd 0) (sort kept) of
                                              Inl e \<Rightarrow> Inl e
                                            | Inr tmp_list \<Rightarrow>
                                                Inr (map (\<lambda>(fcp_no, npiv, phy, path, p).
                                                       \<lparr>i_fcp_id = upper fcp_no,
                                                        i_wwpn_npiv = npiv, i_wwpn_phy = phy,
                                                        i_path = path, i_pchid = upper p\<rparr>)
                                                     tmp_list, No_reason))))))))"

section \<open>Template Manager: edit\<close>



















section \<open>Example databases\<close>

definition dev ::
    "string \<Rightarrow> string \<Rightarrow> int \<Rightarrow> int \<Rightarrow> string \<Rightarrow> string \<Rightarrow> string \<Rightarrow> string \<Rightarrow> fcp_row" where
  "dev i a c r st p npiv t =
     \<lparr>fcp_id = i, assigner_id = a, connections = c, reserved = r, wwpn_npiv = npiv,
      wwpn_phy = ''c05076de33002641'', chpid = ''27'', pchid = p, state = st,
      owner = ''NONE'', tmpl_id = t\<rparr>"

text \<open>Three devices: one attached twice, one reserved only, one with a corrupt counter.\<close>

definition db_usage :: db where
  "db_usage =
     \<lparr>fcp = [dev ''1a00'' ''user1'' 2 1 ''active'' ''02e4'' ''c05076de33000a00'' ''tmpl1'',
             dev ''1a01'' ''user1'' 0 1 ''free'' ''02e4'' ''c05076de33000a01'' ''tmpl1'',
             dev ''1b00'' ''user2'' (- 3) 0 ''free'' ''03fc'' ''c05076de33000b00'' []],
      template = [], template_sp_mapping = [], template_fcp_mapping = []\<rparr>"

text \<open>One device whose counter holds the largest \<^verbatim>\<open>INTEGER\<close> of SQLite.\<close>

definition db_counter_full :: db where
  "db_counter_full =
     \<lparr>fcp = [dev ''1a00'' ''user1'' 9223372036854775807 1 ''active'' ''02e4''
               ''c05076de33000a00'' ''tmpl1''],
      template = [], template_sp_mapping = [], template_fcp_mapping = []\<rparr>"

text \<open>
  Two templates over three devices. Device \<^verbatim>\<open>1a00\<close> belongs to both templates and is
  allocated from \<^verbatim>\<open>tmpl1\<close>, the host default; \<^verbatim>\<open>tmpl2\<close> has no device allocated.
\<close>

definition db_templates :: db where
  "db_templates =
     \<lparr>fcp = [dev ''1a00'' ''user1'' 2 1 ''active'' ''02e4'' ''c05076de33000a00'' ''tmpl1'',
             dev ''1a01'' [] 0 0 ''free'' ''02e4'' ''c05076de33000a01'' [],
             dev ''1b00'' [] 0 0 ''free'' ''03fc'' ''c05076de33000b00'' []],
      template =
        [\<lparr>t_id = ''tmpl1'', t_name = ''first'', t_description = [], t_is_default = 1,
          t_min_fcp_paths_count = - 1\<rparr>,
         \<lparr>t_id = ''tmpl2'', t_name = ''second'', t_description = [], t_is_default = 0,
          t_min_fcp_paths_count = 1\<rparr>],
      template_sp_mapping =
        [\<lparr>sp_name = ''sp1'', sp_tmpl_id = ''tmpl1''\<rparr>,
         \<lparr>sp_name = ''sp2'', sp_tmpl_id = ''tmpl2''\<rparr>],
      template_fcp_mapping =
        [\<lparr>tf_fcp_id = ''1a00'', tf_tmpl_id = ''tmpl1'', tf_path = 0\<rparr>,
         \<lparr>tf_fcp_id = ''1b00'', tf_tmpl_id = ''tmpl1'', tf_path = 1\<rparr>,
         \<lparr>tf_fcp_id = ''1a00'', tf_tmpl_id = ''tmpl2'', tf_path = 0\<rparr>,
         \<lparr>tf_fcp_id = ''1a01'', tf_tmpl_id = ''tmpl2'', tf_path = 0\<rparr>,
         \<lparr>tf_fcp_id = ''1b00'', tf_tmpl_id = ''tmpl2'', tf_path = 1\<rparr>]\<rparr>"

text \<open>Template T, then template U, each created as the host default.\<close>

definition db_after_T :: db where
  "db_after_T =
     snd (create_fcp_template ''tmpl-t'' ''T'' [] [(0, [''1a00'']), (1, [''1b00''])] True
            (Some [''sp1'', ''sp3'']) (Some 2) db_templates)"

definition db_after_U :: db where
  "db_after_U =
     snd (create_fcp_template ''tmpl-u'' ''U'' [] [(0, [''1a01''])] True None None db_after_T)"



text \<open>
  A template with two devices on each of two paths. Device \<^verbatim>\<open>1a00\<close> is free and
  unused, but the hypervisor has reported no NPIV WWPN for it.
\<close>

definition db_same_index :: db where
  "db_same_index =
     \<lparr>fcp = [dev ''1a00'' [] 0 0 ''free'' ''02e4'' [] [],
             dev ''1a01'' [] 0 0 ''free'' ''02e4'' ''c05076de33000a01'' [],
             dev ''1b00'' [] 0 0 ''free'' ''03fc'' ''c05076de33000b00'' [],
             dev ''1b01'' [] 0 0 ''free'' ''03fc'' ''c05076de33000b01'' []],
      template =
        [\<lparr>t_id = ''A'', t_name = ''A'', t_description = [], t_is_default = 0,
          t_min_fcp_paths_count = - 1\<rparr>],
      template_sp_mapping = [],
      template_fcp_mapping =
        [\<lparr>tf_fcp_id = ''1a00'', tf_tmpl_id = ''A'', tf_path = 0\<rparr>,
         \<lparr>tf_fcp_id = ''1a01'', tf_tmpl_id = ''A'', tf_path = 0\<rparr>,
         \<lparr>tf_fcp_id = ''1b00'', tf_tmpl_id = ''A'', tf_path = 1\<rparr>,
         \<lparr>tf_fcp_id = ''1b01'', tf_tmpl_id = ''A'', tf_path = 1\<rparr>]\<rparr>"


section \<open>Facts about keyed tables\<close>

lemma filter_key_unique:
  "distinct (map k xs) \<Longrightarrow> r \<in> set xs \<Longrightarrow> k r = v \<Longrightarrow> filter (\<lambda>x. k x = v) xs = [r]"
proof (induction xs)
  case Nil
  then show ?case by simp
next
  case (Cons x xs)
  show ?case
  proof (cases "x = r")
    case True
    have "k x \<notin> k ` set xs" using Cons.prems(1) by simp
    with True Cons.prems(3) have "\<forall>y\<in>set xs. k y \<noteq> v" by (metis imageI)
    then have "filter (\<lambda>x. k x = v) xs = []" by (simp add: filter_empty_conv)
    with True Cons.prems show ?thesis by simp
  next
    case False
    with Cons.prems have r: "r \<in> set xs" and d: "distinct (map k xs)" by auto
    from Cons.prems r have "k x \<noteq> v" by auto
    with Cons.IH[OF d r Cons.prems(3)] show ?thesis by simp
  qed
qed

lemma key_unique_eq:
  "distinct (map k xs) \<Longrightarrow> r \<in> set xs \<Longrightarrow> x \<in> set xs \<Longrightarrow> k x = k r \<Longrightarrow> x = r"
  by (metis distinct_map inj_onD)

lemma filter_map_key:
  "(\<And>x. k (g x) = k x) \<Longrightarrow> filter (\<lambda>x. k x = v) (map g xs) = map g (filter (\<lambda>x. k x = v) xs)"
  by (induction xs) simp_all

lemma fetchone_None: "fetchone xs = None \<longleftrightarrow> xs = []"
  by (simp add: fetchone_def split: list.splits)

lemma fetchone_filter_None: "fetchone (filter P xs) = None \<longleftrightarrow> (\<forall>x\<in>set xs. \<not> P x)"
  by (simp add: fetchone_None filter_empty_conv)

lemma fold_update_fcp:
  assumes idem: "\<And>r. g (g r) = g r" and key: "\<And>r. fcp_id (g r) = fcp_id r"
  shows "fold (\<lambda>i d1. d1\<lparr>fcp := update_where (\<lambda>r. eq_nocase (fcp_id r) i) g (fcp d1)\<rparr>) ids d
       = d\<lparr>fcp := map (\<lambda>r. if \<exists>i\<in>set ids. eq_nocase (fcp_id r) i then g r else r) (fcp d)\<rparr>"
proof (induction ids arbitrary: d)
  case Nil
  show ?case by simp
next
  case (Cons i ids)
  have "map (\<lambda>r. if \<exists>j\<in>set ids. eq_nocase (fcp_id r) j then g r else r)
            (update_where (\<lambda>r. eq_nocase (fcp_id r) i) g (fcp d))
      = map (\<lambda>r. if \<exists>j\<in>set (i # ids). eq_nocase (fcp_id r) j then g r else r) (fcp d)"
    unfolding update_where_def map_map
    by (rule map_cong[OF refl]) (simp add: idem key)
  then show ?case by (simp add: Cons.IH)
qed

lemma fcp_unique_row:
  assumes pk: "fcp_primary_key d" and r: "r \<in> set (fcp d)" and m: "eq_nocase (fcp_id r) f"
  shows "filter (\<lambda>x. eq_nocase (fcp_id x) f) (fcp d) = [r]"
    and "update_where (\<lambda>x. eq_nocase (fcp_id x) f) (\<lambda>x. x\<lparr>connections := c\<rparr>) (fcp d)
           = map (\<lambda>x. if x = r then x\<lparr>connections := c\<rparr> else x) (fcp d)"
    and "filter (\<lambda>x. eq_nocase (fcp_id x) f)
           (map (\<lambda>x. if x = r then x\<lparr>connections := c\<rparr> else x) (fcp d))
         = [r\<lparr>connections := c\<rparr>]"
proof -
  let ?g = "\<lambda>x. if x = r then x\<lparr>connections := c\<rparr> else x"
  have f1: "filter (\<lambda>x. nocase (fcp_id x) = nocase f) (fcp d) = [r]"
    using pk r m unfolding fcp_primary_key_def eq_nocase_def
    by (intro filter_key_unique) auto
  then show "filter (\<lambda>x. eq_nocase (fcp_id x) f) (fcp d) = [r]"
    by (simp add: eq_nocase_def)
  have pr: "\<forall>x\<in>set (fcp d). nocase (fcp_id x) = nocase f \<longleftrightarrow> x = r"
  proof
    fix x assume x: "x \<in> set (fcp d)"
    show "nocase (fcp_id x) = nocase f \<longleftrightarrow> x = r"
    proof
      assume "nocase (fcp_id x) = nocase f"
      with m have "nocase (fcp_id x) = nocase (fcp_id r)" by (simp add: eq_nocase_def)
      with pk r x show "x = r" unfolding fcp_primary_key_def by (rule key_unique_eq)
    next
      assume "x = r" with m show "nocase (fcp_id x) = nocase f" by (simp add: eq_nocase_def)
    qed
  qed
  show "update_where (\<lambda>x. eq_nocase (fcp_id x) f) (\<lambda>x. x\<lparr>connections := c\<rparr>) (fcp d)
           = map ?g (fcp d)"
    unfolding update_where_def eq_nocase_def
  proof (rule map_cong[OF refl])
    fix x assume "x \<in> set (fcp d)"
    with pr have "nocase (fcp_id x) = nocase f \<longleftrightarrow> x = r" by blast
    then show "(if nocase (fcp_id x) = nocase f then x\<lparr>connections := c\<rparr> else x) = ?g x"
      by (cases "x = r") auto
  qed
  have "filter (\<lambda>x. nocase (fcp_id x) = nocase f) (map ?g (fcp d))
        = map ?g (filter (\<lambda>x. nocase (fcp_id x) = nocase f) (fcp d))"
    by (rule filter_map_key) simp
  with f1 show "filter (\<lambda>x. eq_nocase (fcp_id x) f) (map ?g (fcp d)) = [r\<lparr>connections := c\<rparr>]"
    by (simp add: eq_nocase_def)
qed

section \<open>Device State Manager: connection counters\<close>

text \<open>
  Claim C1, as the code has it. For a device present in table \<^verbatim>\<open>fcp\<close>,
  \<^verbatim>\<open>decrease_connections\<close> never stores a negative counter: a counter other than 0 is
  replaced by its predecessor, or by 0 when the predecessor is negative, and the stored
  value is returned. A counter that is already 0 is not clamped: the call raises
  \<^verbatim>\<open>SDKObjectNotExistError\<close> for the device and the table is left as it was.
\<close>

theorem decrease_connections_spec:
  assumes pk: "fcp_primary_key d" and r: "r \<in> set (fcp d)" and m: "eq_nocase (fcp_id r) f"
  shows "(connections r = 0 \<longrightarrow>
            decrease_connections f d = (Inl (SDKObjectNotExistError (FCP_with_id f)), d))
       \<and> (connections r \<noteq> 0 \<longrightarrow>
            decrease_connections f d =
              (Inr (max 0 (connections r - 1)),
               d\<lparr>fcp := map (\<lambda>x. if x = r then x\<lparr>connections := max 0 (connections r - 1)\<rparr>
                                  else x) (fcp d)\<rparr>))"
proof (intro conjI impI)
  note u = fcp_unique_row [OF pk r m]
  assume "connections r = 0"
  then show "decrease_connections f d = (Inl (SDKObjectNotExistError (FCP_with_id f)), d)"
    by (simp add: decrease_connections_def get_fcp_conn_def u(1) fetchone_def)
next
  note u = fcp_unique_row [OF pk r m]
  assume nz: "connections r \<noteq> 0"
  show "decrease_connections f d =
              (Inr (max 0 (connections r - 1)),
               d\<lparr>fcp := map (\<lambda>x. if x = r then x\<lparr>connections := max 0 (connections r - 1)\<rparr>
                                  else x) (fcp d)\<rparr>)"
  proof (cases "connections r - 1 < 0")
    case True
    then have c: "max 0 (connections r - 1) = 0" by simp
    from True nz show ?thesis
      unfolding c
      by (simp add: decrease_connections_def get_fcp_conn_def u fetchone_def Let_def)
  next
    case False
    then have c: "max 0 (connections r - 1) = connections r - 1" by simp
    from False nz show ?thesis
      unfolding c
      by (simp add: decrease_connections_def get_fcp_conn_def u fetchone_def Let_def)
  qed
qed

theorem decrease_connections_spec_witness:
  "decrease_connections ''1A01'' db_usage =
     (Inl (SDKObjectNotExistError (FCP_with_id ''1A01'')), db_usage)
   \<and> decrease_connections ''1A00'' db_usage =
     (Inr 1, db_usage\<lparr>fcp :=
        [dev ''1a00'' ''user1'' 1 1 ''active'' ''02e4'' ''c05076de33000a00'' ''tmpl1'',
         dev ''1a01'' ''user1'' 0 1 ''free'' ''02e4'' ''c05076de33000a01'' ''tmpl1'',
         dev ''1b00'' ''user2'' (- 3) 0 ''free'' ''03fc'' ''c05076de33000b00'' []]\<rparr>)
   \<and> decrease_connections ''1b00'' db_usage =
     (Inr 0, db_usage\<lparr>fcp :=
        [dev ''1a00'' ''user1'' 2 1 ''active'' ''02e4'' ''c05076de33000a00'' ''tmpl1'',
         dev ''1a01'' ''user1'' 0 1 ''free'' ''02e4'' ''c05076de33000a01'' ''tmpl1'',
         dev ''1b00'' ''user2'' 0 0 ''free'' ''03fc'' ''c05076de33000b00'' []]\<rparr>)"
proof -
  have pk: "fcp_primary_key db_usage" by code_simp
  have e: "eq_nocase ''1a01'' ''1A01'' \<and> eq_nocase ''1a00'' ''1A00'' \<and> eq_nocase ''1b00'' ''1b00''"
    by code_simp
  have r0: "dev ''1a00'' ''user1'' 2 1 ''active'' ''02e4'' ''c05076de33000a00'' ''tmpl1''
              \<in> set (fcp db_usage)"
    and r1: "dev ''1a01'' ''user1'' 0 1 ''free'' ''02e4'' ''c05076de33000a01'' ''tmpl1''
              \<in> set (fcp db_usage)"
    and r2: "dev ''1b00'' ''user2'' (- 3) 0 ''free'' ''03fc'' ''c05076de33000b00'' []
              \<in> set (fcp db_usage)"
    by (simp_all add: db_usage_def)
  have d: "dev ''1a00'' ''user1'' 2 1 ''active'' ''02e4'' ''c05076de33000a00'' ''tmpl1''
            \<noteq> dev ''1a01'' ''user1'' 0 1 ''free'' ''02e4'' ''c05076de33000a01'' ''tmpl1''
         \<and> dev ''1a00'' ''user1'' 2 1 ''active'' ''02e4'' ''c05076de33000a00'' ''tmpl1''
            \<noteq> dev ''1b00'' ''user2'' (- 3) 0 ''free'' ''03fc'' ''c05076de33000b00'' []
         \<and> dev ''1a01'' ''user1'' 0 1 ''free'' ''02e4'' ''c05076de33000a01'' ''tmpl1''
            \<noteq> dev ''1b00'' ''user2'' (- 3) 0 ''free'' ''03fc'' ''c05076de33000b00'' []"
    by (simp add: dev_def)
  show ?thesis
    using decrease_connections_spec [OF pk r1, of "''1A01''"]
          decrease_connections_spec [OF pk r0, of "''1A00''"]
          decrease_connections_spec [OF pk r2, of "''1b00''"] e d
    by (simp add: dev_def db_usage_def)
qed

text \<open>
  Claim C1 as stated fails: device \<^verbatim>\<open>1a01\<close> is present with \<^verbatim>\<open>connections = 0\<close>, and
  decrementing it raises instead of returning 0.
\<close>

theorem decrease_connections_raises_at_zero:
  "connections (dev ''1a01'' ''user1'' 0 1 ''free'' ''02e4'' ''c05076de33000a01'' ''tmpl1'') = 0
   \<and> fcp db_usage ! 1 = dev ''1a01'' ''user1'' 0 1 ''free'' ''02e4'' ''c05076de33000a01'' ''tmpl1''
   \<and> decrease_connections ''1a01'' db_usage =
       (Inl (SDKObjectNotExistError (FCP_with_id ''1a01'')), db_usage)"
  by code_simp

text \<open>
  Claim C10. \<^verbatim>\<open>increase_connections_by_assigner\<close> raises \<^verbatim>\<open>SDKObjectNotExistError\<close>
  when no row matches both the device id and the assigner: in particular when the id is
  absent, and when the row of that id has another assigner. When the pair matches and
  the counter is below the largest \<^verbatim>\<open>INTEGER\<close> of SQLite, \<^verbatim>\<open>2^63 - 1\<close>, the counter of
  that row grows by exactly 1, the new value is returned, and nothing else in the
  database changes. When the pair matches and the new counter is no \<^verbatim>\<open>INTEGER\<close> of
  SQLite, binding it raises \<^verbatim>\<open>OverflowError\<close>: the call raises
  \<^verbatim>\<open>SDKGuestOperationError\<close> and the database is the one before the call.
\<close>

theorem increase_connections_by_assigner_spec:
  assumes pk: "fcp_primary_key d"
  shows "(\<not> (\<exists>r\<in>set (fcp d). eq_nocase (fcp_id r) f \<and> eq_nocase (assigner_id r) a) \<longrightarrow>
            increase_connections_by_assigner f a d =
              (Inl (SDKObjectNotExistError (FCP_with_id f)), d))
       \<and> (\<forall>r\<in>set (fcp d). eq_nocase (fcp_id r) f \<and> \<not> eq_nocase (assigner_id r) a \<longrightarrow>
            increase_connections_by_assigner f a d =
              (Inl (SDKObjectNotExistError (FCP_with_id f)), d))
       \<and> (\<forall>r\<in>set (fcp d). eq_nocase (fcp_id r) f \<and> eq_nocase (assigner_id r) a \<and>
                         connections r + 1 \<le> 2 ^ 63 - 1 \<and> - (2 ^ 63) \<le> connections r + 1 \<longrightarrow>
            increase_connections_by_assigner f a d =
              (Inr (connections r + 1),
               d\<lparr>fcp := map (\<lambda>x. if x = r then x\<lparr>connections := connections x + 1\<rparr> else x)
                             (fcp d)\<rparr>))
       \<and> (\<forall>r\<in>set (fcp d). eq_nocase (fcp_id r) f \<and> eq_nocase (assigner_id r) a \<and>
                         2 ^ 63 - 1 < connections r + 1 \<longrightarrow>
            increase_connections_by_assigner f a d =
              (Inl (SDKGuestOperationError OverflowError), d))"
proof (intro conjI impI ballI)
  assume "\<not> (\<exists>r\<in>set (fcp d). eq_nocase (fcp_id r) f \<and> eq_nocase (assigner_id r) a)"
  then have "fetchone (filter (\<lambda>r. eq_nocase (fcp_id r) f \<and> eq_nocase (assigner_id r) a) (fcp d)) = None"
    by (auto simp: fetchone_None filter_empty_conv)
  then show "increase_connections_by_assigner f a d =
              (Inl (SDKObjectNotExistError (FCP_with_id f)), d)"
    by (simp add: increase_connections_by_assigner_def get_fcp_conn_def)
next
  fix r assume r: "r \<in> set (fcp d)" and m: "eq_nocase (fcp_id r) f \<and> \<not> eq_nocase (assigner_id r) a"
  have "\<forall>x\<in>set (fcp d). \<not> (eq_nocase (fcp_id x) f \<and> eq_nocase (assigner_id x) a)"
  proof
    fix x assume x: "x \<in> set (fcp d)"
    show "\<not> (eq_nocase (fcp_id x) f \<and> eq_nocase (assigner_id x) a)"
    proof
      assume h: "eq_nocase (fcp_id x) f \<and> eq_nocase (assigner_id x) a"
      with m have "nocase (fcp_id x) = nocase (fcp_id r)" by (simp add: eq_nocase_def)
      with pk r x have "x = r"
        unfolding fcp_primary_key_def by (rule key_unique_eq)
      with h m show False by simp
    qed
  qed
  then have "fetchone (filter (\<lambda>r. eq_nocase (fcp_id r) f \<and> eq_nocase (assigner_id r) a) (fcp d)) = None"
    by (auto simp: fetchone_None filter_empty_conv)
  then show "increase_connections_by_assigner f a d =
              (Inl (SDKObjectNotExistError (FCP_with_id f)), d)"
    by (simp add: increase_connections_by_assigner_def get_fcp_conn_def)
next
  fix r assume r: "r \<in> set (fcp d)"
    and m0: "eq_nocase (fcp_id r) f \<and> eq_nocase (assigner_id r) a \<and>
             connections r + 1 \<le> 2 ^ 63 - 1 \<and> - (2 ^ 63) \<le> connections r + 1"
  then have m: "eq_nocase (fcp_id r) f \<and> eq_nocase (assigner_id r) a"
    and rng: "sqlite_integer (connections r + 1)"
    by (simp_all add: sqlite_integer_def)
  let ?P = "\<lambda>x. eq_nocase (fcp_id x) f \<and> eq_nocase (assigner_id x) a"
  let ?g = "\<lambda>x. if ?P x then x\<lparr>connections := connections r + 1\<rparr> else x"
  have key: "\<And>x. x \<in> set (fcp d) \<Longrightarrow> eq_nocase (fcp_id x) f \<Longrightarrow> x = r"
  proof -
    fix x assume x: "x \<in> set (fcp d)" and "eq_nocase (fcp_id x) f"
    with m have "nocase (fcp_id x) = nocase (fcp_id r)" by (simp add: eq_nocase_def)
    with pk r x show "x = r" unfolding fcp_primary_key_def by (rule key_unique_eq)
  qed
  have f1: "filter (\<lambda>x. nocase (fcp_id x) = nocase f) (fcp d) = [r]"
    using pk r m unfolding fcp_primary_key_def eq_nocase_def
    by (intro filter_key_unique) auto
  have f2: "filter ?P (fcp d) = [r]"
  proof -
    have "filter ?P (fcp d) = filter (\<lambda>x. eq_nocase (assigner_id x) a) (filter (\<lambda>x. nocase (fcp_id x) = nocase f) (fcp d))"
      by (simp add: eq_nocase_def conj_commute)
    with f1 m show ?thesis by simp
  qed
  have pr: "\<forall>x\<in>set (fcp d). ?P x \<longleftrightarrow> x = r"
    using key m by blast
  have upd: "update_where ?P (\<lambda>x. x\<lparr>connections := connections r + 1\<rparr>) (fcp d)
           = map (\<lambda>x. if x = r then x\<lparr>connections := connections x + 1\<rparr> else x) (fcp d)"
    unfolding update_where_def
  proof (rule map_cong[OF refl])
    fix x assume "x \<in> set (fcp d)"
    with pr have "?P x \<longleftrightarrow> x = r" by blast
    then show "(if ?P x then x\<lparr>connections := connections r + 1\<rparr> else x) =
               (if x = r then x\<lparr>connections := connections x + 1\<rparr> else x)"
      by (cases "x = r") auto
  qed
  have f3: "filter (\<lambda>x. eq_nocase (fcp_id x) f)
              (map (\<lambda>x. if x = r then x\<lparr>connections := connections x + 1\<rparr> else x) (fcp d))
            = [r\<lparr>connections := connections r + 1\<rparr>]"
  proof -
    have "filter (\<lambda>x. nocase (fcp_id x) = nocase f)
              (map (\<lambda>x. if x = r then x\<lparr>connections := connections x + 1\<rparr> else x) (fcp d))
        = map (\<lambda>x. if x = r then x\<lparr>connections := connections x + 1\<rparr> else x)
              (filter (\<lambda>x. nocase (fcp_id x) = nocase f) (fcp d))"
      by (rule filter_map_key) simp
    with f1 show ?thesis by (simp add: eq_nocase_def)
  qed
  show "increase_connections_by_assigner f a d =
              (Inr (connections r + 1),
               d\<lparr>fcp := map (\<lambda>x. if x = r then x\<lparr>connections := connections x + 1\<rparr> else x)
                             (fcp d)\<rparr>)"
    using rng
    by (simp add: increase_connections_by_assigner_def get_fcp_conn_def f2 fetchone_def upd f3 Let_def)
next
  fix r assume r: "r \<in> set (fcp d)"
    and m0: "eq_nocase (fcp_id r) f \<and> eq_nocase (assigner_id r) a \<and>
             2 ^ 63 - 1 < connections r + 1"
  then have m: "eq_nocase (fcp_id r) f \<and> eq_nocase (assigner_id r) a"
    and rng: "\<not> sqlite_integer (connections r + 1)"
    by (simp_all add: sqlite_integer_def)
  have f1: "filter (\<lambda>x. nocase (fcp_id x) = nocase f) (fcp d) = [r]"
    using pk r m unfolding fcp_primary_key_def eq_nocase_def
    by (intro filter_key_unique) auto
  have "filter (\<lambda>x. eq_nocase (fcp_id x) f \<and> eq_nocase (assigner_id x) a) (fcp d)
          = filter (\<lambda>x. eq_nocase (assigner_id x) a)
              (filter (\<lambda>x. nocase (fcp_id x) = nocase f) (fcp d))"
    by (simp add: eq_nocase_def conj_commute)
  with f1 m
  have f2: "filter (\<lambda>x. eq_nocase (fcp_id x) f \<and> eq_nocase (assigner_id x) a) (fcp d) = [r]"
    by simp
  show "increase_connections_by_assigner f a d =
              (Inl (SDKGuestOperationError OverflowError), d)"
    using rng
    by (simp add: increase_connections_by_assigner_def get_fcp_conn_def f2 fetchone_def Let_def)
qed

theorem increase_connections_by_assigner_spec_witness:
  "increase_connections_by_assigner ''ffff'' ''user1'' db_usage =
     (Inl (SDKObjectNotExistError (FCP_with_id ''ffff'')), db_usage)
   \<and> increase_connections_by_assigner ''1a00'' ''user2'' db_usage =
     (Inl (SDKObjectNotExistError (FCP_with_id ''1a00'')), db_usage)
   \<and> increase_connections_by_assigner ''1A00'' ''USER1'' db_usage =
     (Inr 3, db_usage\<lparr>fcp :=
        [dev ''1a00'' ''user1'' 3 1 ''active'' ''02e4'' ''c05076de33000a00'' ''tmpl1'',
         dev ''1a01'' ''user1'' 0 1 ''free'' ''02e4'' ''c05076de33000a01'' ''tmpl1'',
         dev ''1b00'' ''user2'' (- 3) 0 ''free'' ''03fc'' ''c05076de33000b00'' []]\<rparr>)
   \<and> increase_connections_by_assigner ''1A00'' ''USER1'' db_counter_full =
     (Inl (SDKGuestOperationError OverflowError), db_counter_full)"
proof -
  have pk: "fcp_primary_key db_usage" by code_simp
  have pk': "fcp_primary_key db_counter_full" by code_simp
  have e: "\<not> eq_nocase ''1a00'' ''ffff'' \<and> \<not> eq_nocase ''1a01'' ''ffff''
         \<and> \<not> eq_nocase ''1b00'' ''ffff'' \<and> eq_nocase ''1a00'' ''1a00''
         \<and> \<not> eq_nocase ''user1'' ''user2'' \<and> eq_nocase ''1a00'' ''1A00''
         \<and> eq_nocase ''user1'' ''USER1''"
    by code_simp
  have d: "dev ''1a00'' ''user1'' 2 1 ''active'' ''02e4'' ''c05076de33000a00'' ''tmpl1''
            \<noteq> dev ''1a01'' ''user1'' 0 1 ''free'' ''02e4'' ''c05076de33000a01'' ''tmpl1''
         \<and> dev ''1a00'' ''user1'' 2 1 ''active'' ''02e4'' ''c05076de33000a00'' ''tmpl1''
            \<noteq> dev ''1b00'' ''user2'' (- 3) 0 ''free'' ''03fc'' ''c05076de33000b00'' []"
    by (simp add: dev_def)
  have full: "increase_connections_by_assigner ''1A00'' ''USER1'' db_counter_full =
     (Inl (SDKGuestOperationError OverflowError), db_counter_full)"
    using increase_connections_by_assigner_spec [OF pk', of "''1A00''" "''USER1''"] e
    by (simp add: dev_def db_counter_full_def)
  show ?thesis
    using increase_connections_by_assigner_spec [OF pk, of "''ffff''" "''user1''"]
          increase_connections_by_assigner_spec [OF pk, of "''1a00''" "''user2''"]
          increase_connections_by_assigner_spec [OF pk, of "''1A00''" "''USER1''"] e d full
    by (simp add: dev_def db_usage_def)
qed

text \<open>
  Claim C10 as stated fails where the counter cannot grow: the pair matches the row of
  \<^verbatim>\<open>1a00\<close>, whose counter is \<^verbatim>\<open>2^63 - 1\<close>, and the call raises instead of returning
  \<^verbatim>\<open>2^63\<close>.
\<close>

theorem increase_connections_by_assigner_overflows:
  "map fcp_id (fcp db_counter_full) = [''1a00'']
   \<and> map assigner_id (fcp db_counter_full) = [''user1'']
   \<and> map connections (fcp db_counter_full) = [2 ^ 63 - 1]
   \<and> increase_connections_by_assigner ''1a00'' ''user1'' db_counter_full =
       (Inl (SDKGuestOperationError OverflowError), db_counter_full)"
  by code_simp

section \<open>Device State Manager: reservation\<close>

text \<open>
  Claim C9, as the code has it. \<^verbatim>\<open>unreserve_fcps\<close> sets \<^verbatim>\<open>reserved\<close> to 0 and
  \<^verbatim>\<open>tmpl_id\<close> to the empty string on each listed device and leaves every other field,
  \<^verbatim>\<open>connections\<close> and \<^verbatim>\<open>assigner_id\<close> among them, as it was; \<^verbatim>\<open>reserve_fcps\<close> sets
  \<^verbatim>\<open>reserved\<close> to 1 and assigns \<^verbatim>\<open>assigner_id\<close> and \<^verbatim>\<open>tmpl_id\<close> on each listed
  device. Each is one transaction that always commits; rows of devices not listed, and
  the other three tables, are unchanged.
\<close>

theorem reserve_unreserve_fcps_spec:
  "unreserve_fcps ids d =
     (Inr (), d\<lparr>fcp := map (\<lambda>r. if \<exists>i\<in>set ids. eq_nocase (fcp_id r) i
                                 then r\<lparr>reserved := 0, tmpl_id := []\<rparr> else r) (fcp d)\<rparr>)
   \<and> reserve_fcps ids a t d =
     (Inr (), d\<lparr>fcp := map (\<lambda>r. if \<exists>i\<in>set ids. eq_nocase (fcp_id r) i
                                 then r\<lparr>reserved := 1, assigner_id := a, tmpl_id := t\<rparr> else r)
                             (fcp d)\<rparr>)"
proof
  show "unreserve_fcps ids d =
     (Inr (), d\<lparr>fcp := map (\<lambda>r. if \<exists>i\<in>set ids. eq_nocase (fcp_id r) i
                                 then r\<lparr>reserved := 0, tmpl_id := []\<rparr> else r) (fcp d)\<rparr>)"
  proof (cases "ids = []")
    case True
    then show ?thesis by (simp add: unreserve_fcps_def)
  next
    case False
    then show ?thesis
      by (simp add: unreserve_fcps_def get_fcp_conn_def fold_update_fcp)
  qed
  show "reserve_fcps ids a t d =
     (Inr (), d\<lparr>fcp := map (\<lambda>r. if \<exists>i\<in>set ids. eq_nocase (fcp_id r) i
                                 then r\<lparr>reserved := 1, assigner_id := a, tmpl_id := t\<rparr> else r)
                             (fcp d)\<rparr>)"
    by (simp add: reserve_fcps_def get_fcp_conn_def fold_update_fcp)
qed

theorem reserve_unreserve_fcps_spec_witness:
  "unreserve_fcps [''1A00'', ''1b00''] db_usage =
     (Inr (), db_usage\<lparr>fcp :=
        [dev ''1a00'' ''user1'' 2 0 ''active'' ''02e4'' ''c05076de33000a00'' [],
         dev ''1a01'' ''user1'' 0 1 ''free'' ''02e4'' ''c05076de33000a01'' ''tmpl1'',
         dev ''1b00'' ''user2'' (- 3) 0 ''free'' ''03fc'' ''c05076de33000b00'' []]\<rparr>)
   \<and> reserve_fcps [''1A00'', ''1b00''] ''user9'' ''tmpl2'' db_usage =
     (Inr (), db_usage\<lparr>fcp :=
        [dev ''1a00'' ''user9'' 2 1 ''active'' ''02e4'' ''c05076de33000a00'' ''tmpl2'',
         dev ''1a01'' ''user1'' 0 1 ''free'' ''02e4'' ''c05076de33000a01'' ''tmpl1'',
         dev ''1b00'' ''user9'' (- 3) 1 ''free'' ''03fc'' ''c05076de33000b00'' ''tmpl2'']\<rparr>)"
proof -
  have e: "eq_nocase ''1a00'' ''1A00'' \<and> eq_nocase ''1b00'' ''1b00''
          \<and> \<not> eq_nocase ''1a00'' ''1b00'' \<and> \<not> eq_nocase ''1a01'' ''1A00''
          \<and> \<not> eq_nocase ''1a01'' ''1b00'' \<and> \<not> eq_nocase ''1b00'' ''1A00''"
    by code_simp
  show ?thesis
    using reserve_unreserve_fcps_spec [of "[''1A00'', ''1b00'']" db_usage "''user9''" "''tmpl2''"]
    by (simp add: db_usage_def dev_def e)
qed

text \<open>
  Claim C9 as stated fails on \<^verbatim>\<open>assigner_id\<close>: after \<^verbatim>\<open>unreserve_fcps\<close> on all three
  devices, each still carries the assigner it had.
\<close>

theorem unreserve_fcps_keeps_assigner:
  "map assigner_id (fcp db_usage) = [''user1'', ''user1'', ''user2'']
   \<and> map assigner_id (fcp (snd (unreserve_fcps [''1a00'', ''1a01'', ''1b00''] db_usage)))
       = [''user1'', ''user1'', ''user2'']"
  by code_simp

section \<open>Template Manager: delete and create\<close>

lemma template_exist_iff:
  "fcp_template_exist_in_db tid d \<longleftrightarrow> (\<exists>t\<in>set (template d). eq_nocase (t_id t) tid)"
  by (simp add: fcp_template_exist_in_db_def filter_empty_conv)

lemma executemany_tf_template:
  "executemany insert_template_fcp_mapping ps d = (r, d') \<Longrightarrow> template d' = template d"
proof (induction ps arbitrary: d)
  case Nil
  then show ?case by auto
next
  case (Cons p ps)
  then show ?case
    by (auto simp: and_then_def insert_template_fcp_mapping_def split: if_splits)
qed

lemma executemany_sp_template:
  "executemany insert_template_sp_mapping ps d = (r, d') \<Longrightarrow> template d' = template d"
proof (induction ps arbitrary: d)
  case Nil
  then show ?case by auto
next
  case (Cons p ps)
  then show ?case
    by (auto simp: and_then_def insert_template_sp_mapping_def split: if_splits)
qed

lemma fold_sp_update_template:
  "template (fold (\<lambda>sp d5. d5\<lparr>template_sp_mapping := g sp d5\<rparr>) sps d) = template d"
  by (induction sps arbitrary: d) simp_all

lemma template_clear_is_default:
  "template (clear_is_default d) = map (\<lambda>t. t\<lparr>t_is_default := 0\<rparr>) (template d)"
  by (simp add: clear_is_default_def update_where_def)

lemma create_fcp_template_template:
  assumes "create_fcp_template T n ds fd hdf sp m d = (Inr (), d1)"
  shows "template d1 =
           (if hdf then map (\<lambda>t. t\<lparr>t_is_default := 0\<rparr>) (template d) else template d) @
           [\<lparr>t_id = T, t_name = n, t_description = ds, t_is_default = (if hdf then 1 else 0),
             t_min_fcp_paths_count = (case m of None \<Rightarrow> - 1 | Some c \<Rightarrow> if c = 0 then - 1 else c)\<rparr>]"
  using assms
  unfolding create_fcp_template_def get_fcp_conn_def Let_def
  by (auto simp: and_then_def insert_template_def template_clear_is_default
        fold_sp_update_template
      split: if_splits prod.splits sum.splits
      dest!: executemany_tf_template executemany_sp_template)

lemma create_fcp_template_failure:
  "create_fcp_template T n ds fd hdf sp m d = (Inl e, d1) \<Longrightarrow> d1 = d"
  unfolding create_fcp_template_def get_fcp_conn_def
  by (auto split: prod.splits sum.splits)

lemma default_templates_after_create:
  assumes "create_fcp_template T n ds fd True sp m d = (Inr (), d1)"
  shows "default_templates d1 =
           [\<lparr>t_id = T, t_name = n, t_description = ds, t_is_default = 1,
             t_min_fcp_paths_count = (case m of None \<Rightarrow> - 1 | Some c \<Rightarrow> if c = 0 then - 1 else c)\<rparr>]"
  using create_fcp_template_template [OF assms]
  by (simp add: default_templates_def filter_empty_conv)

lemma at_most_one_default_create:
  assumes inv: "at_most_one_default d"
    and c: "create_fcp_template T n ds fd hdf sp m d = (Inr (), d1)"
  shows "at_most_one_default d1"
proof (cases hdf)
  case True
  with c show ?thesis
    by (simp add: at_most_one_default_def default_templates_after_create)
next
  case False
  with inv create_fcp_template_template [OF c] show ?thesis
    by (simp add: at_most_one_default_def default_templates_def)
qed

text \<open>
  Claim C6. \<^verbatim>\<open>delete_fcp_template\<close> raises \<^verbatim>\<open>SDKObjectNotExistError\<close> when table
  \<^verbatim>\<open>template\<close> has no row of that id; when it has one and some device row carries the
  id as its \<^verbatim>\<open>tmpl_id\<close>, it raises \<^verbatim>\<open>SDKConflictError\<close> naming those devices;
  otherwise it removes the rows of that template from \<^verbatim>\<open>template\<close>,
  \<^verbatim>\<open>template_sp_mapping\<close> and \<^verbatim>\<open>template_fcp_mapping\<close> in one transaction and leaves
  table \<^verbatim>\<open>fcp\<close> alone. After either failure the database is the one before the call.
\<close>

theorem delete_fcp_template_spec:
  "(\<not> (\<exists>t\<in>set (template d). eq_nocase (t_id t) tid) \<longrightarrow>
      delete_fcp_template tid d =
        (Inl (SDKObjectNotExistError (FCP_Multipath_Template tid)), d))
   \<and> ((\<exists>t\<in>set (template d). eq_nocase (t_id t) tid) \<and>
      (\<exists>r\<in>set (fcp d). eq_nocase (tmpl_id r) tid) \<longrightarrow>
      delete_fcp_template tid d =
        (Inl (SDKConflictError 22 (Delete_template_inuse
               (map fcp_id (filter (\<lambda>r. eq_nocase (tmpl_id r) tid) (fcp d))))), d))
   \<and> ((\<exists>t\<in>set (template d). eq_nocase (t_id t) tid) \<and>
      \<not> (\<exists>r\<in>set (fcp d). eq_nocase (tmpl_id r) tid) \<longrightarrow>
      delete_fcp_template tid d =
        (Inr (),
         d\<lparr>template := filter (\<lambda>t. \<not> eq_nocase (t_id t) tid) (template d),
           template_sp_mapping :=
             filter (\<lambda>s. \<not> eq_nocase (sp_tmpl_id s) tid) (template_sp_mapping d),
           template_fcp_mapping :=
             filter (\<lambda>m. \<not> eq_nocase (tf_tmpl_id m) tid) (template_fcp_mapping d)\<rparr>))"
proof (intro conjI impI)
  assume "\<not> (\<exists>t\<in>set (template d). eq_nocase (t_id t) tid)"
  then have "\<not> fcp_template_exist_in_db tid d" by (simp add: template_exist_iff)
  then show "delete_fcp_template tid d =
        (Inl (SDKObjectNotExistError (FCP_Multipath_Template tid)), d)"
    by (simp add: delete_fcp_template_def get_fcp_conn_def)
next
  assume a: "(\<exists>t\<in>set (template d). eq_nocase (t_id t) tid) \<and>
      (\<exists>r\<in>set (fcp d). eq_nocase (tmpl_id r) tid)"
  then have e: "fcp_template_exist_in_db tid d" by (simp add: template_exist_iff)
  from a have "filter (\<lambda>r. eq_nocase (tmpl_id r) tid) (fcp d) \<noteq> []"
    by (simp add: filter_empty_conv)
  with e show "delete_fcp_template tid d =
        (Inl (SDKConflictError 22 (Delete_template_inuse
               (map fcp_id (filter (\<lambda>r. eq_nocase (tmpl_id r) tid) (fcp d))))), d)"
    by (simp add: delete_fcp_template_def get_fcp_conn_def
          get_inuse_fcp_device_by_fcp_template_def)
next
  assume a: "(\<exists>t\<in>set (template d). eq_nocase (t_id t) tid) \<and>
      \<not> (\<exists>r\<in>set (fcp d). eq_nocase (tmpl_id r) tid)"
  then have e: "fcp_template_exist_in_db tid d" by (simp add: template_exist_iff)
  from a have "filter (\<lambda>r. eq_nocase (tmpl_id r) tid) (fcp d) = []"
    by (simp add: filter_empty_conv)
  with e show "delete_fcp_template tid d =
        (Inr (),
         d\<lparr>template := filter (\<lambda>t. \<not> eq_nocase (t_id t) tid) (template d),
           template_sp_mapping :=
             filter (\<lambda>s. \<not> eq_nocase (sp_tmpl_id s) tid) (template_sp_mapping d),
           template_fcp_mapping :=
             filter (\<lambda>m. \<not> eq_nocase (tf_tmpl_id m) tid) (template_fcp_mapping d)\<rparr>)"
    by (simp add: delete_fcp_template_def get_fcp_conn_def
          get_inuse_fcp_device_by_fcp_template_def delete_where_def)
qed

theorem delete_fcp_template_spec_witness:
  "delete_fcp_template ''tmpl9'' db_templates =
     (Inl (SDKObjectNotExistError (FCP_Multipath_Template ''tmpl9'')), db_templates)
   \<and> delete_fcp_template ''TMPL1'' db_templates =
     (Inl (SDKConflictError 22 (Delete_template_inuse [''1a00''])), db_templates)
   \<and> delete_fcp_template ''Tmpl2'' db_templates =
     (Inr (),
      db_templates
        \<lparr>template :=
           [\<lparr>t_id = ''tmpl1'', t_name = ''first'', t_description = [], t_is_default = 1,
             t_min_fcp_paths_count = - 1\<rparr>],
         template_sp_mapping := [\<lparr>sp_name = ''sp1'', sp_tmpl_id = ''tmpl1''\<rparr>],
         template_fcp_mapping :=
           [\<lparr>tf_fcp_id = ''1a00'', tf_tmpl_id = ''tmpl1'', tf_path = 0\<rparr>,
            \<lparr>tf_fcp_id = ''1b00'', tf_tmpl_id = ''tmpl1'', tf_path = 1\<rparr>]\<rparr>)"
proof -
  have e: "\<not> eq_nocase ''tmpl1'' ''tmpl9'' \<and> \<not> eq_nocase ''tmpl2'' ''tmpl9''
         \<and> eq_nocase ''tmpl1'' ''TMPL1'' \<and> \<not> eq_nocase ''tmpl2'' ''TMPL1''
         \<and> \<not> eq_nocase [] ''TMPL1''
         \<and> eq_nocase ''tmpl2'' ''Tmpl2'' \<and> \<not> eq_nocase ''tmpl1'' ''Tmpl2''
         \<and> \<not> eq_nocase [] ''Tmpl2''"
    by code_simp
  show ?thesis
    using delete_fcp_template_spec [of db_templates "''tmpl9''"]
          delete_fcp_template_spec [of db_templates "''TMPL1''"]
          delete_fcp_template_spec [of db_templates "''Tmpl2''"] e
    by (simp add: db_templates_def dev_def)
qed

text \<open>
  Claim C7. \<^verbatim>\<open>create_fcp_template\<close> with \<^verbatim>\<open>host_default = True\<close> clears
  \<^verbatim>\<open>is_default\<close> on every existing row and appends the new row with the flag set, in
  the same transaction (a failed call changes nothing). So creating T and then U, both as
  host default, leaves U as the only template with \<^verbatim>\<open>is_default\<close> set; every successful
  create keeps the invariant that at most one row has the flag; and
  \<^verbatim>\<open>update_basic_info_of_fcp_template\<close> with \<^verbatim>\<open>host_default = True\<close> leaves the flag on
  no template but the one it updates.
\<close>

theorem create_fcp_template_host_default:
  "(create_fcp_template T n ds fd True sp m d = (Inr (), dT) \<longrightarrow>
      template dT =
        map (\<lambda>t. t\<lparr>t_is_default := 0\<rparr>) (template d) @
        [\<lparr>t_id = T, t_name = n, t_description = ds, t_is_default = 1,
          t_min_fcp_paths_count =
            (case m of None \<Rightarrow> - 1 | Some c \<Rightarrow> if c = 0 then - 1 else c)\<rparr>])
   \<and> (create_fcp_template T n ds fd hdf sp m d = (Inl e, dT) \<longrightarrow> dT = d)
   \<and> (create_fcp_template T n ds fd True sp m d = (Inr (), dT) \<and>
       create_fcp_template U n' ds' fd' True sp' m' dT = (Inr (), dU) \<longrightarrow>
         map t_id (default_templates dU) = [U] \<and>
         (\<forall>t\<in>set (template dU). t_is_default t \<noteq> 0 \<longrightarrow> t_id t = U))
   \<and> (at_most_one_default d \<and>
       create_fcp_template T n ds fd hdf sp m d = (Inr (), dT) \<longrightarrow> at_most_one_default dT)
   \<and> (update_basic_info_of_fcp_template (n, ds, PyBool True, mc, T) d = (Inr (), dT) \<longrightarrow>
         (\<forall>t\<in>set (template dT). t_is_default t \<noteq> 0 \<longrightarrow> eq_nocase (t_id t) T))"
proof (intro conjI impI)
  assume "create_fcp_template T n ds fd True sp m d = (Inr (), dT)"
  from create_fcp_template_template [OF this]
  show "template dT =
        map (\<lambda>t. t\<lparr>t_is_default := 0\<rparr>) (template d) @
        [\<lparr>t_id = T, t_name = n, t_description = ds, t_is_default = 1,
          t_min_fcp_paths_count =
            (case m of None \<Rightarrow> - 1 | Some c \<Rightarrow> if c = 0 then - 1 else c)\<rparr>]"
    by simp
next
  assume "create_fcp_template T n ds fd hdf sp m d = (Inl e, dT)"
  then show "dT = d" by (rule create_fcp_template_failure)
next
  assume a: "create_fcp_template T n ds fd True sp m d = (Inr (), dT) \<and>
       create_fcp_template U n' ds' fd' True sp' m' dT = (Inr (), dU)"
  then have c2: "create_fcp_template U n' ds' fd' True sp' m' dT = (Inr (), dU)" by simp
  have dt: "default_templates dU =
           [\<lparr>t_id = U, t_name = n', t_description = ds', t_is_default = 1,
             t_min_fcp_paths_count = (case m' of None \<Rightarrow> - 1 | Some c \<Rightarrow> if c = 0 then - 1 else c)\<rparr>]"
    by (rule default_templates_after_create [OF c2])
  then show "map t_id (default_templates dU) = [U]" by simp
  show "\<forall>t\<in>set (template dU). t_is_default t \<noteq> 0 \<longrightarrow> t_id t = U"
  proof (intro ballI impI)
    fix t assume "t \<in> set (template dU)" and "t_is_default t \<noteq> 0"
    then have "t \<in> set (default_templates dU)" by (simp add: default_templates_def)
    with dt show "t_id t = U" by auto
  qed
next
  assume "at_most_one_default d \<and>
       create_fcp_template T n ds fd hdf sp m d = (Inr (), dT)"
  then show "at_most_one_default dT" by (blast intro: at_most_one_default_create)
next
  assume "update_basic_info_of_fcp_template (n, ds, PyBool True, mc, T) d = (Inr (), dT)"
  then have "template dT =
      map (\<lambda>t. if eq_nocase (t_id t) T
                then t\<lparr>t_name := n, t_description := ds, t_is_default := 1,
                       t_min_fcp_paths_count := mc\<rparr> else t)
          (map (\<lambda>t. t\<lparr>t_is_default := 0\<rparr>) (template d))"
    by (cases "sqlite_integer mc")
       (auto simp: update_basic_info_of_fcp_template_def get_fcp_conn_def Let_def
          template_clear_is_default update_where_def)
  then show "\<forall>t\<in>set (template dT). t_is_default t \<noteq> 0 \<longrightarrow> eq_nocase (t_id t) T"
    by (auto split: if_splits)
qed

theorem create_fcp_template_host_default_witness:
  "map t_id (default_templates db_templates) = [''tmpl1'']
   \<and> map t_id (default_templates db_after_T) = [''tmpl-t'']
   \<and> map t_id (default_templates db_after_U) = [''tmpl-u'']
   \<and> at_most_one_default db_after_U
   \<and> map t_id (template db_after_U) = [''tmpl1'', ''tmpl2'', ''tmpl-t'', ''tmpl-u'']
   \<and> create_fcp_template ''TMPL1'' ''again'' [] [] False None None db_templates =
         (Inl (SDKObjectAlreadyExistError (FCP_Multipath_Template ''TMPL1'')), db_templates)"
proof -
  have h0: "at_most_one_default db_templates
            \<and> map t_id (default_templates db_templates) = [''tmpl1'']
            \<and> map t_id (template db_templates) = [''tmpl1'', ''tmpl2'']"
    by code_simp
  have h1: "create_fcp_template ''tmpl-t'' ''T'' [] [(0, [''1a00'']), (1, [''1b00''])] True
            (Some [''sp1'', ''sp3'']) (Some 2) db_templates = (Inr (), db_after_T)"
    by code_simp
  have h2: "create_fcp_template ''tmpl-u'' ''U'' [] [(0, [''1a01''])] True None None db_after_T
            = (Inr (), db_after_U)"
    by code_simp
  have h3: "fst (create_fcp_template ''TMPL1'' ''again'' [] [] False None None db_templates)
            = Inl (SDKObjectAlreadyExistError (FCP_Multipath_Template ''TMPL1''))"
    by code_simp
  note t1 = create_fcp_template_host_default
      [where T = "''tmpl-t''" and n = "''T''" and ds = "[]" and fd = "[(0, [''1a00'']), (1, [''1b00''])]"
         and sp = "Some [''sp1'', ''sp3'']" and m = "Some 2" and d = db_templates and dT = db_after_T
         and U = "''tmpl-u''" and n' = "''U''" and ds' = "[]" and fd' = "[(0, [''1a01''])]"
         and sp' = None and m' = None and dU = db_after_U and hdf = True]
  note t2 = create_fcp_template_host_default
      [where T = "''tmpl-u''" and n = "''U''" and ds = "[]" and fd = "[(0, [''1a01''])]"
         and sp = None and m = None and d = db_after_T and dT = db_after_U and hdf = True]
  note t3 = create_fcp_template_host_default
      [where T = "''TMPL1''" and n = "''again''" and ds = "[]" and fd = "[]"
         and sp = None and m = None and d = db_templates and hdf = False]
  from t1 h1 have a1: "template db_after_T =
        map (\<lambda>t. t\<lparr>t_is_default := 0\<rparr>) (template db_templates) @
        [\<lparr>t_id = ''tmpl-t'', t_name = ''T'', t_description = [], t_is_default = 1,
          t_min_fcp_paths_count = 2\<rparr>]"
    by simp
  from t2 h2 have a2: "template db_after_U =
        map (\<lambda>t. t\<lparr>t_is_default := 0\<rparr>) (template db_after_T) @
        [\<lparr>t_id = ''tmpl-u'', t_name = ''U'', t_description = [], t_is_default = 1,
          t_min_fcp_paths_count = - 1\<rparr>]"
    by simp
  from t1 h1 h2 have a3: "map t_id (default_templates db_after_U) = [''tmpl-u'']" by blast
  from a1 h0 have a4: "at_most_one_default db_after_T \<and> map t_id (default_templates db_after_T) = [''tmpl-t'']"
    by (simp add: at_most_one_default_def default_templates_def)
  from t2 a4 h2 have a5: "at_most_one_default db_after_U" by blast
  from a1 a2 h0 have a6: "map t_id (template db_after_U) = [''tmpl1'', ''tmpl2'', ''tmpl-t'', ''tmpl-u'']"
    by (simp add: o_def)
  define e where "e = SDKObjectAlreadyExistError (FCP_Multipath_Template ''TMPL1'')"
  define d' where "d' = snd (create_fcp_template ''TMPL1'' ''again'' [] [] False None None db_templates)"
  from h3 have
    f: "create_fcp_template ''TMPL1'' ''again'' [] [] False None None db_templates = (Inl e, d')"
    unfolding e_def d'_def by (simp add: prod_eq_iff)
  from t3 [where e = e and dT = d'] f have "d' = db_templates" by blast
  with f e_def have a7: "create_fcp_template ''TMPL1'' ''again'' [] [] False None None db_templates =
         (Inl (SDKObjectAlreadyExistError (FCP_Multipath_Template ''TMPL1'')), db_templates)"
    by simp
  from h0 a3 a4 a5 a6 a7 show ?thesis by simp
qed

section \<open>Facts about case folding\<close>

lemma of_char_lt: "(of_char c :: nat) < 256"
  by (cases c) (simp split: if_splits)

lemma lower_upper_char_iff:
  "ascii_lower c = ascii_lower c' \<longleftrightarrow> ascii_upper c = ascii_upper c'"
proof -
  have cc: "c = c' \<longleftrightarrow> (of_char c :: nat) = of_char c'" by simp
  have r: "\<And>x n. (char_of (n::nat) = x) = (n mod 256 = of_char x)"
    by (metis char_of_eq_iff of_char_of char_of_char)
  have l: "\<And>x n. (x = char_of (n::nat)) = (n mod 256 = of_char x)"
    using r by metis
  show ?thesis
    using of_char_lt[of c] of_char_lt[of c']
    unfolding ascii_lower_def ascii_upper_def Let_def
    by (auto simp: r l cc simp del: of_char_eq_iff)
qed

lemma nocase_upper_iff: "nocase a = nocase b \<longleftrightarrow> upper a = upper b"
proof (induction a arbitrary: b)
  case Nil
  then show ?case by (simp add: nocase_def upper_def)
next
  case (Cons x xs)
  show ?case
  proof (cases b)
    case Nil
    then show ?thesis by (simp add: nocase_def upper_def)
  next
    case (Cons y ys)
    with Cons.IH[of ys] show ?thesis
      by (simp add: nocase_def upper_def lower_upper_char_iff)
  qed
qed

lemma upper_idem_char: "ascii_upper (ascii_upper c) = ascii_upper c"
proof -
  have r: "\<And>n. n < 256 \<Longrightarrow> (of_char (char_of (n::nat)) :: nat) = n" by simp
  show ?thesis
    using of_char_lt[of c]
    unfolding ascii_upper_def Let_def
    by (auto simp: r)
qed

lemma upper_idem: "upper (upper s) = upper s"
  by (simp add: upper_def upper_idem_char)

lemma upper_nocase_char: "ascii_upper (ascii_lower c) = ascii_upper c"
proof -
  have r: "\<And>n. n < 256 \<Longrightarrow> (of_char (char_of (n::nat)) :: nat) = n" by simp
  have l: "\<And>x n. (char_of (n::nat) = x) = (n mod 256 = of_char x)"
    by (metis char_of_eq_iff of_char_of char_of_char)
  show ?thesis
    using of_char_lt[of c]
    unfolding ascii_upper_def ascii_lower_def Let_def
    by (auto simp: r l)
qed

lemma upper_nocase: "upper (nocase s) = upper s"
  by (simp add: upper_def nocase_def upper_nocase_char)

lemma eq_nocase_upper: "eq_nocase a b \<longleftrightarrow> upper a = upper b"
  by (simp add: eq_nocase_def nocase_upper_iff)

section \<open>The free PCHIDs per path\<close>

lemma dict_append_keys: "fst ` set (dict_append k v d) = insert k (fst ` set d)"
proof (induction d)
  case Nil
  show ?case by simp
next
  case (Cons a d)
  obtain k' vs where a: "a = (k', vs)" by (cases a)
  show ?case unfolding a using Cons.IH by (cases "k = k'") (simp_all add: insert_commute)
qed

lemma dict_append_distinct:
  "distinct (map fst d) \<Longrightarrow> distinct (map fst (dict_append k v d))"
proof (induction d)
  case Nil
  then show ?case by simp
next
  case (Cons a d)
  obtain k' vs where a: "a = (k', vs)" by (cases a)
  from Cons show ?case
    unfolding a using dict_append_keys[of k v d] by (auto simp: image_iff)
qed

lemma dict_append_get:
  "dict_get (dict_append k v d) k' = (if k' = k then dict_get d k @ [v] else dict_get d k')"
  by (induction d) (auto simp: dict_get_def)

lemma dict_append_nonempty:
  "\<forall>(k, vs)\<in>set d. vs \<noteq> [] \<Longrightarrow> \<forall>(k', vs)\<in>set (dict_append k v d). vs \<noteq> []"
  by (induction d) (auto split: if_splits)

lemma fold_dict_append:
  fixes kvs :: "('k \<times> 'a) list"
  assumes "distinct (map fst d)" and "\<forall>(k, vs)\<in>set d. vs \<noteq> []"
  shows "distinct (map fst (fold (\<lambda>(k, v) d. dict_append k (f v) d) kvs d))"
    and "fst ` set (fold (\<lambda>(k, v) d. dict_append k (f v) d) kvs d) = fst ` set kvs \<union> fst ` set d"
    and "dict_get (fold (\<lambda>(k, v) d. dict_append k (f v) d) kvs d) k'
           = dict_get d k' @ map (\<lambda>(k, v). f v) (filter (\<lambda>(k, v). k = k') kvs)"
    and "\<forall>(k, vs)\<in>set (fold (\<lambda>(k, v) d. dict_append k (f v) d) kvs d). vs \<noteq> []"
  using assms
proof (induction kvs arbitrary: d)
  case Nil
  { case 1 then show ?case by simp }
  { case 2 then show ?case by simp }
  { case 3 then show ?case by simp }
  { case 4 then show ?case by simp }
next
  case (Cons a kvs)
  obtain k v where a: "a = (k, v)" by (cases a)
  { case 1
    have "distinct (map fst (dict_append k (f v) d))" using 1(1) by (rule dict_append_distinct)
    moreover have "\<forall>(k', vs)\<in>set (dict_append k (f v) d). vs \<noteq> []"
      using 1(2) by (rule dict_append_nonempty)
    ultimately show ?case using Cons.IH(1) by (simp add: a) }
  { case 2
    have "distinct (map fst (dict_append k (f v) d))" using 2(1) by (rule dict_append_distinct)
    moreover have "\<forall>(k', vs)\<in>set (dict_append k (f v) d). vs \<noteq> []"
      using 2(2) by (rule dict_append_nonempty)
    ultimately show ?case using Cons.IH(2)[of "dict_append k (f v) d"]
      by (auto simp: a dict_append_keys) }
  { case 3
    have "distinct (map fst (dict_append k (f v) d))" using 3(1) by (rule dict_append_distinct)
    moreover have "\<forall>(k', vs)\<in>set (dict_append k (f v) d). vs \<noteq> []"
      using 3(2) by (rule dict_append_nonempty)
    ultimately show ?case using Cons.IH(3)[of "dict_append k (f v) d"]
      by (simp add: a dict_append_get) }
  { case 4
    have "distinct (map fst (dict_append k (f v) d))" using 4(1) by (rule dict_append_distinct)
    moreover have "\<forall>(k', vs)\<in>set (dict_append k (f v) d). vs \<noteq> []"
      using 4(2) by (rule dict_append_nonempty)
    ultimately show ?case using Cons.IH(4)[of "dict_append k (f v) d"]
      by (simp add: a) }
qed

lemma dict_get_entry:
  "distinct (map fst d) \<Longrightarrow> (k, vs) \<in> set d \<Longrightarrow> dict_get d k = vs"
  by (simp add: dict_get_def)

lemma get_free_pchids_eq:
  "get_free_pchids_by_fcp_template tid d =
     fold (\<lambda>(k, v) d. dict_append k (upper v) d) (free_rows tid d) []"
  by (simp add: get_free_pchids_by_fcp_template_def free_join_def free_rows_def)

lemma free_rows_set:
  "set (free_rows tid d) = (\<lambda>(m, r). (tf_path m, nocase (pchid r))) ` set (free_join tid d)"
  by (simp add: free_rows_def)

lemma free_pchids_distinct: "distinct (map fst (get_free_pchids_by_fcp_template tid d))"
  unfolding get_free_pchids_eq by (rule fold_dict_append(1)) simp_all


lemma free_pchids_keys:
  "fst ` set (get_free_pchids_by_fcp_template tid d) = (\<lambda>(m, r). tf_path m) ` set (free_join tid d)"
proof -
  have "fst ` set (fold (\<lambda>(k, v) d. dict_append k (upper v) d) (free_rows tid d) [])
        = fst ` set (free_rows tid d) \<union> fst ` set ([] :: (int \<times> string list) list)"
    by (rule fold_dict_append(2)) simp_all
  then have "fst ` set (get_free_pchids_by_fcp_template tid d) = fst ` set (free_rows tid d)"
    unfolding get_free_pchids_eq by simp
  also have "\<dots> = (\<lambda>(m, r). tf_path m) ` set (free_join tid d)"
    unfolding free_rows_set image_image by (rule image_cong) auto
  finally show ?thesis .
qed

lemma free_pchids_values:
  assumes "(path, ps) \<in> set (get_free_pchids_by_fcp_template tid d)"
  shows "set ps = {upper (pchid r) | m r. (m, r) \<in> set (free_join tid d) \<and> tf_path m = path}"
proof -
  have "ps = dict_get (get_free_pchids_by_fcp_template tid d) path"
    using assms free_pchids_distinct by (simp add: dict_get_entry)
  also have "\<dots> = dict_get [] path @
       map (\<lambda>(k, v). upper v) (filter (\<lambda>(k, v). k = path) (free_rows tid d))"
    unfolding get_free_pchids_eq by (rule fold_dict_append(3)) simp_all
  finally have ps: "ps = map (\<lambda>(k, v). upper v) (filter (\<lambda>(k, v). k = path) (free_rows tid d))"
    by (simp add: dict_get_def)
  show ?thesis
  proof (intro equalityI subsetI)
    fix p assume "p \<in> set ps"
    then obtain k v where kv: "(k, v) \<in> set (free_rows tid d)" "k = path" "p = upper v"
      unfolding ps by auto
    from kv(1) obtain m r where "(m, r) \<in> set (free_join tid d)" "k = tf_path m" "v = nocase (pchid r)"
      unfolding free_rows_set by auto
    with kv show "p \<in> {upper (pchid r) | m r. (m, r) \<in> set (free_join tid d) \<and> tf_path m = path}"
      by (auto simp: upper_nocase)
  next
    fix p assume "p \<in> {upper (pchid r) | m r. (m, r) \<in> set (free_join tid d) \<and> tf_path m = path}"
    then obtain m r where mr: "(m, r) \<in> set (free_join tid d)" "tf_path m = path" "p = upper (pchid r)"
      by auto
    then have "(path, nocase (pchid r)) \<in> set (free_rows tid d)"
      unfolding free_rows_set by force
    then have "upper (nocase (pchid r)) \<in> set ps"
      unfolding ps by force
    with mr show "p \<in> set ps" by (simp add: upper_nocase)
  qed
qed

lemma free_pchids_length:
  "length (get_free_pchids_by_fcp_template tid d)
     = card ((\<lambda>(m, r). tf_path m) ` set (free_join tid d))"
proof -
  have "length (get_free_pchids_by_fcp_template tid d)
        = card (set (map fst (get_free_pchids_by_fcp_template tid d)))"
    using free_pchids_distinct[of tid d] by (simp add: distinct_card del: set_map)
  then show ?thesis by (simp add: free_pchids_keys)
qed

section \<open>Strategy B: too few free paths\<close>

lemma free_pchids_length_paths:
  "length (get_free_pchids_by_fcp_template tid d) = card (free_paths tid d)"
  by (simp add: free_pchids_length free_paths_def free_join_def)

lemma free_pchids_empty_iff:
  "get_free_pchids_by_fcp_template tid d = [] \<longleftrightarrow> free_paths tid d = {}"
proof -
  have "finite (free_paths tid d)" by (simp add: free_paths_def)
  then show ?thesis
    using free_pchids_length_paths[of tid d] by (metis card_0_eq length_0_conv)
qed

text \<open>
  Claim C5. Let the template have a row in table \<^verbatim>\<open>template\<close> with stored minimum
  \<^verbatim>\<open>s\<close>; its effective minimum path count is \<^verbatim>\<open>s\<close>, or the number of paths of the
  template when \<^verbatim>\<open>s = -1\<close>, and that is what \<^verbatim>\<open>get_min_fcp_paths_count\<close> returns.
  When the number of paths with an available device is below it, \<^verbatim>\<open>get_fcp_devices\<close>
  raises nothing and returns the empty list with a reason that is not empty: the free
  and the minimum path count, or, when no path has an available device at all, that no
  free device is left.
\<close>

theorem get_fcp_devices_free_paths_below_minimum:
  assumes tid: "tid \<noteq> []"
    and stored: "get_min_fcp_paths_count_from_db tid d = Some s"
    and below: "int (card (free_paths tid d)) < (if s = - 1 then int (get_path_count tid d) else s)"
  shows "get_min_fcp_paths_count tid d = Inr (if s = - 1 then int (get_path_count tid d) else s)
       \<and> get_fcp_devices tid pchid_info rnd d =
           Inr ([], if free_paths tid d = {} then No_free_device_left tid
                    else Free_paths_below_minimum tid (card (free_paths tid d))
                           (if s = - 1 then int (get_path_count tid d) else s))"
proof
  show m: "get_min_fcp_paths_count tid d = Inr (if s = - 1 then int (get_path_count tid d) else s)"
    using tid stored by (simp add: get_min_fcp_paths_count_def)
  show "get_fcp_devices tid pchid_info rnd d =
           Inr ([], if free_paths tid d = {} then No_free_device_left tid
                    else Free_paths_below_minimum tid (card (free_paths tid d))
                           (if s = - 1 then int (get_path_count tid d) else s))"
  proof (cases "free_paths tid d = {}")
    case True
    then have "get_free_pchids_by_fcp_template tid d = []" by (simp add: free_pchids_empty_iff)
    with True show ?thesis by (simp add: get_fcp_devices_def get_fcp_conn_def)
  next
    case False
    then have ne: "get_free_pchids_by_fcp_template tid d \<noteq> []" by (simp add: free_pchids_empty_iff)
    from False ne m below show ?thesis
      by (simp add: get_fcp_devices_def get_fcp_conn_def Let_def free_pchids_length_paths)
  qed
qed

theorem get_fcp_devices_free_paths_below_minimum_witness:
  "get_fcp_devices ''tmpl1'' [(''02e4'', 0, 8), (''03fc'', 0, 8)] (\<lambda>_. 0) db_templates =
     Inr ([], Free_paths_below_minimum ''tmpl1'' 1 2)
   \<and> get_fcp_devices ''tmpl2'' [(''02e4'', 0, 8), (''03fc'', 0, 8)] (\<lambda>_. 0)
        (db_templates\<lparr>template :=
           [\<lparr>t_id = ''tmpl2'', t_name = ''second'', t_description = [], t_is_default = 0,
             t_min_fcp_paths_count = 3\<rparr>]\<rparr>) =
     Inr ([], Free_paths_below_minimum ''tmpl2'' 2 3)
   \<and> get_fcp_devices ''tmpl1'' [] (\<lambda>_. 0) (db_templates\<lparr>fcp := []\<rparr>) =
     Inr ([], No_free_device_left ''tmpl1'')"
proof -
  let ?d2 = "db_templates\<lparr>template :=
           [\<lparr>t_id = ''tmpl2'', t_name = ''second'', t_description = [], t_is_default = 0,
             t_min_fcp_paths_count = 3\<rparr>]\<rparr>"
  have a: "get_min_fcp_paths_count_from_db ''tmpl1'' db_templates = Some (- 1)
         \<and> get_path_count ''tmpl1'' db_templates = 2
         \<and> free_paths ''tmpl1'' db_templates = {1}"
    by code_simp
  have b: "get_min_fcp_paths_count_from_db ''tmpl2'' ?d2 = Some 3
         \<and> free_paths ''tmpl2'' ?d2 = {0, 1}"
    by code_simp
  have c: "get_min_fcp_paths_count_from_db ''tmpl1'' (db_templates\<lparr>fcp := []\<rparr>) = Some (- 1)
         \<and> get_path_count ''tmpl1'' (db_templates\<lparr>fcp := []\<rparr>) = 2
         \<and> free_paths ''tmpl1'' (db_templates\<lparr>fcp := []\<rparr>) = {}"
    by code_simp
  show ?thesis
    using get_fcp_devices_free_paths_below_minimum
            [of "''tmpl1''" db_templates "- 1" "[(''02e4'', 0, 8), (''03fc'', 0, 8)]" "\<lambda>_. 0"]
          get_fcp_devices_free_paths_below_minimum
            [of "''tmpl2''" ?d2 3 "[(''02e4'', 0, 8), (''03fc'', 0, 8)]" "\<lambda>_. 0"]
          get_fcp_devices_free_paths_below_minimum
            [of "''tmpl1''" "db_templates\<lparr>fcp := []\<rparr>" "- 1" "[]" "\<lambda>_. 0"]
          a b c
    by simp
qed

section \<open>Strategy A and the WWPN conditions\<close>

text \<open>
  Claim C2 fails for Strategy A. With every path holding an available device, the
  same-index loops test \<^verbatim>\<open>connections\<close>, \<^verbatim>\<open>reserved\<close> and \<^verbatim>\<open>state\<close> only: device
  \<^verbatim>\<open>1a00\<close>, whose \<^verbatim>\<open>wwpn_npiv\<close> is empty and which is therefore not available, is
  returned at index 0.
\<close>

theorem same_index_returns_device_without_wwpn:
  "fcp db_same_index ! 0 = dev ''1a00'' [] 0 0 ''free'' ''02e4'' [] []
   \<and> \<not> available (dev ''1a00'' [] 0 0 ''free'' ''02e4'' [] [])
   \<and> get_fcp_devices_with_same_index ''A'' [(''02e4'', 0, 8), (''03fc'', 0, 8)] (\<lambda>_. 0)
         db_same_index =
       Inr ([\<lparr>i_fcp_id = ''1A00'', i_wwpn_npiv = [], i_wwpn_phy = ''c05076de33002641'',
              i_path = 0, i_pchid = ''02E4''\<rparr>,
             \<lparr>i_fcp_id = ''1B00'', i_wwpn_npiv = ''c05076de33000b00'',
              i_wwpn_phy = ''c05076de33002641'', i_path = 1, i_pchid = ''03FC''\<rparr>],
            No_reason)"
  by code_simp

section \<open>The combinations of one path count\<close>

lemma combinations_props:
  "ys \<in> set (combinations xs k) \<Longrightarrow>
     length ys = k \<and> set ys \<subseteq> set xs \<and> (distinct (map f xs) \<longrightarrow> distinct (map f ys))"
proof (induction xs k arbitrary: ys rule: combinations.induct)
  case (1 xs)
  then show ?case by simp
next
  case (2 k)
  then show ?case by simp
next
  case (3 x xs k)
  from "3.prems" consider
      (hd) zs where "ys = x # zs" "zs \<in> set (combinations xs k)"
    | (tl) "ys \<in> set (combinations xs (Suc k))"
    by auto
  then show ?case
  proof cases
    case hd
    from "3.IH"(1)[OF hd(2)] hd(1) show ?thesis by auto
  next
    case tl
    from "3.IH"(2)[OF tl] show ?thesis by auto
  qed
qed



lemma in_product_lists:
  "c \<in> set (product_lists xss) \<Longrightarrow>
     length c = length xss \<and> (\<forall>i<length xss. c ! i \<in> set (xss ! i))"
  by (auto simp: product_lists_set list_all2_conv_all_nth)

text \<open>The candidates of a path count: what every one of them is made of.\<close>

lemma candidates_props:
  assumes c: "pchids_per_path_combinations fp k = Inr combs"
    and fp: "distinct (map fst fp)"
    and comb: "comb \<in> set combs"
  shows "0 \<le> k" and "length comb = nat k" and "distinct (map fst comb)"
    and "\<forall>(path, p)\<in>set comb. \<exists>ps. (path, ps) \<in> set fp \<and> p \<in> set ps"
proof -
  from c show k: "0 \<le> k"
    by (auto simp: pchids_per_path_combinations_def split: if_splits)
  from c k comb obtain entries c' where
    e: "entries \<in> set (combinations (sort_key fst fp) (nat k))"
    and c': "c' \<in> set (product_lists (map snd entries))"
    and z: "comb = zip (map fst entries) c'"
    by (auto simp: pchids_per_path_combinations_def split: if_splits)
  have d: "distinct (map fst (sort_key fst fp))"
    using fp by (simp add: distinct_map)
  from combinations_props[OF e, of fst] d
  have len: "length entries = nat k" and sub: "set entries \<subseteq> set fp"
    and de: "distinct (map fst entries)" by auto
  from in_product_lists[OF c'] have lc: "length c' = length entries"
    and ci: "\<forall>i<length entries. c' ! i \<in> set (snd (entries ! i))" by auto
  from z lc len show "length comb = nat k" by simp
  from z lc have mf: "map fst comb = map fst entries" by simp
  with de show "distinct (map fst comb)" by simp
  show "\<forall>(path, p)\<in>set comb. \<exists>ps. (path, ps) \<in> set fp \<and> p \<in> set ps"
  proof (clarify)
    fix path p assume "(path, p) \<in> set comb"
    then obtain i where i: "i < length entries" "path = fst (entries ! i)" "p = c' ! i"
      unfolding z using lc by (auto simp: in_set_zip)
    with sub have "entries ! i \<in> set fp" by auto
    with i ci show "\<exists>ps. (path, ps) \<in> set fp \<and> p \<in> set ps"
      by (intro exI[of _ "snd (entries ! i)"]) auto
  qed
qed


section \<open>Weights\<close>

lemma weights_of_Inr:
  "weights_of free pcs = Inr ws \<Longrightarrow>
     (\<forall>(p, c)\<in>set pcs. free p \<noteq> None) \<and>
     ws = map (\<lambda>(p, c). (p, the (free p), rat_of_int (the (free p)) / rat_of_nat c)) pcs"
proof (induction pcs arbitrary: ws)
  case Nil
  then show ?case by simp
next
  case (Cons a pcs)
  obtain p c where a: "a = (p, c)" by (cases a)
  from Cons.prems obtain f ws' where f: "free p = Some f"
    and w: "weights_of free pcs = Inr ws'"
    and ws: "ws = (p, f, rat_of_int f / rat_of_nat c) # ws'"
    unfolding a by (auto split: option.splits sum.splits)
  from Cons.IH[OF w] f ws show ?case unfolding a by simp
qed



lemma count_per_pchid_set:
  "set (comb_fcp_count_per_pchid ps) = (\<lambda>p. (p, count_list ps p)) ` set ps"
  by (simp add: comb_fcp_count_per_pchid_def)

lemma spec_weight_of_group_Some:
  "free_count_in_pchid_info pinfo p = Some f \<Longrightarrow>
     spec_weight_of_group pinfo comb p =
       Some (rat_of_int f / rat_of_nat (count_list (map snd comb) p))"
  by (simp add: spec_weight_of_group_def)

lemma spec_weight_of_group_None:
  "spec_weight_of_group pinfo comb p = None \<longleftrightarrow> free_count_in_pchid_info pinfo p = None"
  by (simp add: spec_weight_of_group_def split: option.splits)

text \<open>The weights of one combination, as \<^const>\<open>weights_of\<close> computes them.\<close>

lemma weights_of_comb:
  assumes "weights_of (free_count_in_pchid_info pinfo)
             (comb_fcp_count_per_pchid (map snd comb)) = Inr ws"
  shows "\<forall>p\<in>snd ` set comb. spec_weight_of_group pinfo comb p \<noteq> None"
    and "ws = map (\<lambda>p. (p, the (free_count_in_pchid_info pinfo p),
                       the (spec_weight_of_group pinfo comb p))) (remdups (map snd comb))"
proof -
  let ?free = "free_count_in_pchid_info pinfo"
  from weights_of_Inr[OF assms]
  have k: "\<forall>(p, c)\<in>set (comb_fcp_count_per_pchid (map snd comb)). ?free p \<noteq> None"
    and ws: "ws = map (\<lambda>(p, c). (p, the (?free p), rat_of_int (the (?free p)) / rat_of_nat c))
                    (comb_fcp_count_per_pchid (map snd comb))" by auto
  from k have known: "\<forall>p\<in>snd ` set comb. ?free p \<noteq> None"
    unfolding count_per_pchid_set by auto
  then show "\<forall>p\<in>snd ` set comb. spec_weight_of_group pinfo comb p \<noteq> None"
    by (simp add: spec_weight_of_group_None)
  show "ws = map (\<lambda>p. (p, the (?free p), the (spec_weight_of_group pinfo comb p)))
               (remdups (map snd comb))"
    unfolding ws comb_fcp_count_per_pchid_def map_map
  proof (rule map_cong[OF refl])
    fix p assume "p \<in> set (remdups (map snd comb))"
    then have "p \<in> snd ` set comb" by simp
    with known obtain f where "?free p = Some f" by auto
    then show "((\<lambda>(p, c). (p, the (?free p), rat_of_int (the (?free p)) / rat_of_nat c)) \<circ>
                (\<lambda>p. (p, count_list (map snd comb) p))) p
             = (p, the (?free p), the (spec_weight_of_group pinfo comb p))"
      by (simp add: spec_weight_of_group_def)
  qed
qed

lemma spec_weight_of_combination_Some:
  assumes "comb \<noteq> []" and "\<forall>p\<in>snd ` set comb. spec_weight_of_group pinfo comb p \<noteq> None"
  shows "spec_weight_of_combination pinfo comb =
           Some (Min ((\<lambda>p. the (spec_weight_of_group pinfo comb p)) ` snd ` set comb))"
  using assms by (simp add: spec_weight_of_combination_def)

lemma calculate_weight_loop_step:
  assumes "calculate_weight_loop free (comb # combs) without = Inr (weighted, without')"
  shows "\<exists>ws weighted'.
       weights_of free (comb_fcp_count_per_pchid (map snd comb)) = Inr ws \<and> ws \<noteq> [] \<and>
       calculate_weight_loop free combs
         (without @ map (\<lambda>(p, f, w). (p, f)) (filter (\<lambda>(p, f, w). w < 1) ws))
         = Inr (weighted', without') \<and>
       weighted = (comb, Min (set (map (\<lambda>(p, f, w). w) ws))) # weighted'"
proof (cases "weights_of free (comb_fcp_count_per_pchid (map snd comb))")
  case (Inl e)
  with assms show ?thesis by simp
next
  case (Inr ws)
  show ?thesis
  proof (cases "ws = []")
    case True
    with Inr assms show ?thesis by simp
  next
    case False
    show ?thesis
    proof (cases "calculate_weight_loop free combs
         (without @ map (\<lambda>(p, f, w). (p, f)) (filter (\<lambda>(p, f, w). w < 1) ws))")
      case (Inl e)
      with Inr False assms show ?thesis by (simp add: Let_def)
    next
      case r: (Inr res)
      obtain weighted' w'' where res: "res = (weighted', w'')" by (cases res)
      from Inr False r res assms show ?thesis by (simp add: Let_def)
    qed
  qed
qed

lemma weights_of_comb_facts:
  assumes w: "weights_of (free_count_in_pchid_info pinfo)
                (comb_fcp_count_per_pchid (map snd comb)) = Inr ws"
    and ne: "ws \<noteq> []"
  shows "spec_weight_of_combination pinfo comb = Some (Min (set (map (\<lambda>(p, f, w). w) ws)))"
    and "set (map (\<lambda>(p, f, w). (p, f)) (filter (\<lambda>(p, f, w). w < 1) ws))
           = {(p, f). p \<in> snd ` set comb \<and> free_count_in_pchid_info pinfo p = Some f \<and>
                      the (spec_weight_of_group pinfo comb p) < 1}"
proof -
  let ?free = "free_count_in_pchid_info pinfo"
  let ?g = "\<lambda>p. (p, the (?free p), the (spec_weight_of_group pinfo comb p))"
  note k = weights_of_comb[OF w]
  from k(2) ne have cne: "comb \<noteq> []" by auto
  have "map (\<lambda>(p, f, w). w) ws = map (\<lambda>p. the (spec_weight_of_group pinfo comb p)) (remdups (map snd comb))"
    unfolding k(2) by simp
  then have "set (map (\<lambda>(p, f, w). w) ws)
            = (\<lambda>p. the (spec_weight_of_group pinfo comb p)) ` snd ` set comb"
    by simp
  with spec_weight_of_combination_Some[OF cne k(1)]
  show "spec_weight_of_combination pinfo comb = Some (Min (set (map (\<lambda>(p, f, w). w) ws)))"
    by simp
  have known: "\<And>p. p \<in> snd ` set comb \<Longrightarrow> \<exists>f. ?free p = Some f"
    using k(1) by (auto simp: spec_weight_of_group_None)
  have "map (\<lambda>(p, f, w). (p, f)) (filter (\<lambda>(p, f, w). w < 1) ws)
        = map (\<lambda>p. (p, the (?free p)))
              (filter (\<lambda>p. the (spec_weight_of_group pinfo comb p) < 1) (remdups (map snd comb)))"
    unfolding k(2) by (simp add: filter_map o_def)
  then have s: "set (map (\<lambda>(p, f, w). (p, f)) (filter (\<lambda>(p, f, w). w < 1) ws))
        = (\<lambda>p. (p, the (?free p))) `
            {p \<in> snd ` set comb. the (spec_weight_of_group pinfo comb p) < 1}"
    by simp
  show "set (map (\<lambda>(p, f, w). (p, f)) (filter (\<lambda>(p, f, w). w < 1) ws))
           = {(p, f). p \<in> snd ` set comb \<and> ?free p = Some f \<and>
                      the (spec_weight_of_group pinfo comb p) < 1}"
    unfolding s
  proof (intro equalityI subsetI)
    fix x assume "x \<in> (\<lambda>p. (p, the (?free p))) `
            {p \<in> snd ` set comb. the (spec_weight_of_group pinfo comb p) < 1}"
    then obtain p where p: "p \<in> snd ` set comb" "the (spec_weight_of_group pinfo comb p) < 1"
      and x: "x = (p, the (?free p))" by blast
    from known[OF p(1)] obtain f where "?free p = Some f" by blast
    with p x show "x \<in> {(p, f). p \<in> snd ` set comb \<and> ?free p = Some f \<and>
                      the (spec_weight_of_group pinfo comb p) < 1}" by simp
  next
    fix x assume "x \<in> {(p, f). p \<in> snd ` set comb \<and> ?free p = Some f \<and>
                      the (spec_weight_of_group pinfo comb p) < 1}"
    then obtain p f where x: "x = (p, f)" and p: "p \<in> snd ` set comb" "?free p = Some f"
      "the (spec_weight_of_group pinfo comb p) < 1" by blast
    then have "x = (p, the (?free p))" by simp
    with p show "x \<in> (\<lambda>p. (p, the (?free p))) `
            {p \<in> snd ` set comb. the (spec_weight_of_group pinfo comb p) < 1}" by blast
  qed
qed

text \<open>
  The loop of \<^verbatim>\<open>_calculate_weight\<close>: every combination gets the weight of the
  specification, and the PCHIDs noted are those whose weight is below 1 somewhere.
\<close>

lemma calculate_weight_loop_Inr:
  "calculate_weight_loop (free_count_in_pchid_info pinfo) combs without
             = Inr (weighted, without') \<Longrightarrow>
   (\<forall>comb\<in>set combs. spec_weight_of_combination pinfo comb \<noteq> None) \<and>
   weighted = map (\<lambda>comb. (comb, the (spec_weight_of_combination pinfo comb))) combs \<and>
   set without' = set without \<union>
           {(p, f). \<exists>comb\<in>set combs. p \<in> snd ` set comb \<and>
                      free_count_in_pchid_info pinfo p = Some f \<and>
                      the (spec_weight_of_group pinfo comb p) < 1}"
proof (induction combs arbitrary: without weighted without')
  case Nil
  then show ?case by auto
next
  case (Cons comb combs)
  let ?free = "free_count_in_pchid_info pinfo"
  from calculate_weight_loop_step[OF Cons.prems] obtain ws weighted' where
      w: "weights_of ?free (comb_fcp_count_per_pchid (map snd comb)) = Inr ws" "ws \<noteq> []"
      and r: "calculate_weight_loop ?free combs
         (without @ map (\<lambda>(p, f, w). (p, f)) (filter (\<lambda>(p, f, w). w < 1) ws))
         = Inr (weighted', without')"
      and e: "weighted = (comb, Min (set (map (\<lambda>(p, f, w). w) ws))) # weighted'" by blast
  note f = weights_of_comb_facts[OF w]
  note ih = Cons.IH[OF r]
  from ih f(1) have c1: "\<forall>c\<in>set (comb # combs). spec_weight_of_combination pinfo c \<noteq> None"
    by simp
  from ih f(1) e have c2: "weighted =
      map (\<lambda>comb. (comb, the (spec_weight_of_combination pinfo comb))) (comb # combs)"
    by simp
  from ih have "set without' =
        set without \<union> set (map (\<lambda>(p, f, w). (p, f)) (filter (\<lambda>(p, f, w). w < 1) ws)) \<union>
        {(p, f). \<exists>comb\<in>set combs. p \<in> snd ` set comb \<and> ?free p = Some f \<and>
                      the (spec_weight_of_group pinfo comb p) < 1}"
    by simp
  then have c3: "set without' = set without \<union>
           {(p, f). \<exists>c\<in>set (comb # combs). p \<in> snd ` set c \<and> ?free p = Some f \<and>
                      the (spec_weight_of_group pinfo c p) < 1}"
    unfolding f(2) by auto
  from c1 c2 c3 show ?case by blast
qed


section \<open>One turn of the loop of Strategy B\<close>

lemma surviving_combinations_Inr:
  "surviving_combinations pinfo fp k = Inr valid \<longleftrightarrow>
     (\<exists>combs weighted without.
        pchids_per_path_combinations fp k = Inr combs \<and>
        calculate_weight pinfo combs = Inr (weighted, without) \<and>
        valid = remove_invalid_weight weighted)"
  by (auto simp: surviving_combinations_def split: sum.splits)

lemma surviving_combinations_props:
  assumes s: "surviving_combinations pinfo fp k = Inr valid"
    and fp: "distinct (map fst fp)"
    and cw: "(comb, w) \<in> set valid"
  shows "0 \<le> k" and "length comb = nat k" and "distinct (map fst comb)"
    and "\<forall>(path, p)\<in>set comb. \<exists>ps. (path, ps) \<in> set fp \<and> p \<in> set ps"
    and "spec_weight_of_combination pinfo comb = Some w" and "1 \<le> w"
proof -
  from s obtain combs weighted without where
    c: "pchids_per_path_combinations fp k = Inr combs"
    and cal: "calculate_weight pinfo combs = Inr (weighted, without)"
    and v: "valid = remove_invalid_weight weighted"
    unfolding surviving_combinations_Inr by blast
  from cal have "calculate_weight_loop (free_count_in_pchid_info pinfo) combs []
                   = Inr (weighted, without)"
    by (simp add: calculate_weight_def)
  from calculate_weight_loop_Inr[OF this]
  have known: "\<forall>comb\<in>set combs. spec_weight_of_combination pinfo comb \<noteq> None"
    and weighted: "weighted = map (\<lambda>comb. (comb, the (spec_weight_of_combination pinfo comb))) combs"
    by auto
  from cw v weighted have in_combs: "comb \<in> set combs"
    and w: "w = the (spec_weight_of_combination pinfo comb)" and ge: "\<not> w < 1"
    by (auto simp: remove_invalid_weight_def)
  from candidates_props[OF c fp in_combs]
  show "0 \<le> k" and "length comb = nat k" and "distinct (map fst comb)"
    and "\<forall>(path, p)\<in>set comb. \<exists>ps. (path, ps) \<in> set fp \<and> p \<in> set ps"
    by auto
  from known in_combs w show "spec_weight_of_combination pinfo comb = Some w" by auto
  from ge show "1 \<le> w" by simp
qed

text \<open>What \<^verbatim>\<open>_select_max_weight\<close> and \<^verbatim>\<open>_select_most_distributed_pchids\<close> leave.\<close>

lemma select_final:
  assumes ne: "valid \<noteq> []"
  shows "select_most_distributed_pchids (select_max_weight valid) \<noteq> []"
    and "final \<in> set (select_most_distributed_pchids (select_max_weight valid)) \<Longrightarrow>
         \<exists>w. (final, w) \<in> set valid \<and> (\<forall>(c, w')\<in>set valid. w' \<le> w) \<and>
             (\<forall>(c, w')\<in>set valid. w' = w \<longrightarrow>
                length (remdups (map snd c)) \<le> length (remdups (map snd final)))"
proof -
  let ?cnt = "\<lambda>comb. length (remdups (map (snd :: int \<times> string \<Rightarrow> string) comb))"
  define mw where "mw = Max (set (map snd valid))"
  define best where "best = select_max_weight valid"
  define cnts where "cnts = map ?cnt (map fst best)"
  define mc where "mc = Max (set cnts)"
  have best: "best = filter (\<lambda>(comb, weight). weight = mw) valid"
    by (simp add: best_def mw_def select_max_weight_def)
  from ne have "mw \<in> set (map snd valid)" unfolding mw_def by (intro Max_in) auto
  then obtain c0 where c0: "(c0, mw) \<in> set valid" by auto
  then have bne: "best \<noteq> []" unfolding best by (auto simp: filter_empty_conv)
  have finals: "select_most_distributed_pchids best
                  = filter (\<lambda>comb. ?cnt comb = mc) (map fst best)"
    by (simp only: select_most_distributed_pchids_def Let_def not_not mc_def cnts_def)
  have fin2: "select_most_distributed_pchids (select_max_weight valid)
                  = filter (\<lambda>comb. ?cnt comb = mc) (map fst best)"
    using finals unfolding best_def .
  from bne have "cnts \<noteq> []" by (simp add: cnts_def)
  then have "mc \<in> set cnts" unfolding mc_def by (intro Max_in) auto
  then obtain c1 where c1: "c1 \<in> set (map fst best)" "?cnt c1 = mc"
    unfolding cnts_def by auto
  then have "filter (\<lambda>comb. ?cnt comb = mc) (map fst best) \<noteq> []"
    unfolding filter_empty_conv by blast
  then show "select_most_distributed_pchids (select_max_weight valid) \<noteq> []"
    unfolding fin2 .
  assume "final \<in> set (select_most_distributed_pchids (select_max_weight valid))"
  then have "final \<in> set (filter (\<lambda>comb. ?cnt comb = mc) (map fst best))"
    unfolding fin2 .
  then have f1: "final \<in> set (map fst best)" and f2: "?cnt final = mc"
    by auto
  from f1 have fv: "(final, mw) \<in> set valid" unfolding best by auto
  have mx: "\<forall>(c, w')\<in>set valid. w' \<le> mw"
  proof clarify
    fix c w' assume "(c, w') \<in> set valid"
    then have "w' \<in> set (map snd valid)" by force
    then show "w' \<le> mw" unfolding mw_def by (intro Max_ge) auto
  qed
  have md: "\<forall>(c, w')\<in>set valid. w' = mw \<longrightarrow> ?cnt c \<le> ?cnt final"
  proof clarify
    fix c w' assume "(c, mw) \<in> set valid"
    then have "c \<in> set (map fst best)" unfolding best by force
    then have "?cnt c \<in> set cnts" unfolding cnts_def by auto
    then have "?cnt c \<le> mc" unfolding mc_def by (intro Max_ge) auto
    with f2 show "?cnt c \<le> ?cnt final" by simp
  qed
  from fv mx md show "\<exists>w. (final, w) \<in> set valid \<and> (\<forall>(c, w')\<in>set valid. w' \<le> w) \<and>
             (\<forall>(c, w')\<in>set valid. w' = w \<longrightarrow> ?cnt c \<le> ?cnt final)"
    by blast
qed


lemma random_choice_in: "random_choice n xs = Inr x \<Longrightarrow> x \<in> set xs"
  by (auto simp: random_choice_def split: if_splits)

lemma random_choice_Inl: "random_choice n xs = Inl e \<Longrightarrow> xs = []"
  by (auto simp: random_choice_def split: if_splits)

lemma pick_each_Inr:
  "pick_each rnd j xss = Inr ys \<Longrightarrow> list_all2 (\<lambda>y xs. y \<in> set xs) ys xss"
proof (induction xss arbitrary: j ys)
  case Nil
  then show ?case by simp
next
  case (Cons xs xss)
  from Cons.prems obtain x ys' where x: "random_choice (rnd j) xs = Inr x"
    and r: "pick_each rnd (Suc j) xss = Inr ys'" and ys: "ys = x # ys'"
    by (auto split: sum.splits)
  from Cons.IH[OF r] random_choice_in[OF x] ys show ?case by simp
qed


section \<open>The devices drawn for a combination\<close>

lemma free_join_sorted_set:
  "set (sort_key k (filter P (template_join tid d))) = {x \<in> set (template_join tid d). P x}"
  by auto

lemma get_one_random_Inr:
  assumes g: "get_one_random_fcp_combinations tid final rnd d = Inr fcp_list"
    and dist: "distinct (map fst final)"
    and up: "\<forall>(path, p)\<in>set final. upper p = p"
  shows "length fcp_list = length final"
    and "\<forall>i<length final. i_path (fcp_list ! i) = fst (final ! i) \<and>
            i_pchid (fcp_list ! i) = snd (final ! i) \<and>
            (\<exists>(m, r)\<in>set (free_join tid d). fcp_list ! i = item_of (m, r))"
proof -
  define fcps where "fcps = sort_key (\<lambda>(m, r). (tf_path m, nocase (pchid r), nocase (fcp_id r)))
                   (filter (\<lambda>(m, r). available r \<and>
                              (\<exists>(path, p)\<in>set final. tf_path m = path \<and> eq_nocase (pchid r) p))
                           (template_join tid d))"
  define tmp_dict where "tmp_dict = map (\<lambda>(path, p). map item_of (filter (\<lambda>(m, r). tf_path m = path) fcps))
                         final"
  from g have pe: "pick_each rnd 1 tmp_dict = Inr fcp_list"
    by (simp add: get_one_random_fcp_combinations_def Let_def fcps_def tmp_dict_def)
  from pick_each_Inr[OF pe] have la: "list_all2 (\<lambda>y xs. y \<in> set xs) fcp_list tmp_dict" .
  then have len: "length fcp_list = length tmp_dict" by (rule list_all2_lengthD)
  then show "length fcp_list = length final" by (simp add: tmp_dict_def)
  have fset: "set fcps = {x \<in> set (template_join tid d).
       (\<lambda>(m, r). available r \<and>
            (\<exists>(path, p)\<in>set final. tf_path m = path \<and> eq_nocase (pchid r) p)) x}"
    unfolding fcps_def by (rule free_join_sorted_set)
  show "\<forall>i<length final. i_path (fcp_list ! i) = fst (final ! i) \<and>
            i_pchid (fcp_list ! i) = snd (final ! i) \<and>
            (\<exists>(m, r)\<in>set (free_join tid d). fcp_list ! i = item_of (m, r))"
  proof (intro allI impI)
    fix i assume i: "i < length final"
    obtain path p where fi: "final ! i = (path, p)" by (cases "final ! i")
    from i fi have mem: "(path, p) \<in> set final" by (metis nth_mem)
    from i have il: "i < length tmp_dict" by (simp add: tmp_dict_def)
    have "fcp_list ! i \<in> set (tmp_dict ! i)"
      by (rule list_all2_nthD2[OF la il])
    moreover from i fi have "tmp_dict ! i = map item_of (filter (\<lambda>(m, r). tf_path m = path) fcps)"
      by (simp add: tmp_dict_def)
    ultimately have "fcp_list ! i \<in> item_of ` {x \<in> set fcps. (\<lambda>(m, r). tf_path m = path) x}"
      by simp
    then obtain m r where mr: "(m, r) \<in> set fcps" "tf_path m = path"
      and it: "fcp_list ! i = item_of (m, r)" by auto
    from mr(1) have j: "(m, r) \<in> set (template_join tid d)" and av: "available r"
      and ex: "\<exists>(path', p')\<in>set final. tf_path m = path' \<and> eq_nocase (pchid r) p'"
      unfolding fset by auto
    from ex obtain path' p' where pp: "(path', p') \<in> set final" "tf_path m = path'"
      "eq_nocase (pchid r) p'" by auto
    from pp(1,2) mr(2) mem dist have "p' = p"
      by (metis eq_key_imp_eq_value)
    with pp(3) have "upper (pchid r) = upper p" by (simp add: eq_nocase_upper)
    with up mem have pc: "upper (pchid r) = p" by auto
    from j av have "(m, r) \<in> set (free_join tid d)" by (simp add: free_join_def)
    with it mr(2) pc fi show "i_path (fcp_list ! i) = fst (final ! i) \<and>
            i_pchid (fcp_list ! i) = snd (final ! i) \<and>
            (\<exists>(m, r)\<in>set (free_join tid d). fcp_list ! i = item_of (m, r))"
      by (auto simp: item_of_def)
  qed
qed


text \<open>A combination over the free PCHIDs of a template names devices that exist.\<close>

lemma comb_of_free_pchids:
  assumes "\<forall>(path, p)\<in>set comb. \<exists>ps. (path, ps) \<in> set (get_free_pchids_by_fcp_template tid d) \<and> p \<in> set ps"
  shows "\<forall>(path, p)\<in>set comb. upper p = p"
    and "\<forall>(path, p)\<in>set comb.
             \<exists>(m, r)\<in>set (free_join tid d). tf_path m = path \<and> upper (pchid r) = upper p"
proof -
  have k: "\<And>path p. (path, p) \<in> set comb \<Longrightarrow>
          \<exists>m r. (m, r) \<in> set (free_join tid d) \<and> tf_path m = path \<and> upper (pchid r) = p"
  proof -
    fix path p assume "(path, p) \<in> set comb"
    with assms obtain ps where ps: "(path, ps) \<in> set (get_free_pchids_by_fcp_template tid d)"
      "p \<in> set ps" by fast
    from free_pchids_values[OF ps(1)] ps(2)
    show "\<exists>m r. (m, r) \<in> set (free_join tid d) \<and> tf_path m = path \<and> upper (pchid r) = p"
      by auto
  qed
  show "\<forall>(path, p)\<in>set comb. upper p = p"
  proof clarify
    fix path p assume "(path, p) \<in> set comb"
    from k[OF this] show "upper p = p" by (auto simp: upper_idem)
  qed
  show "\<forall>(path, p)\<in>set comb.
             \<exists>(m, r)\<in>set (free_join tid d). tf_path m = path \<and> upper (pchid r) = upper p"
  proof clarify
    fix path p assume "(path, p) \<in> set comb"
    from k[OF this] show "\<exists>(m, r)\<in>set (free_join tid d). tf_path m = path \<and> upper (pchid r) = upper p"
      by (auto simp: upper_idem)
  qed
qed

section \<open>The loop over the path counts\<close>

lemma try_path_counts_error:
  "surviving_combinations pinfo fp k = Inl e \<Longrightarrow>
     try_path_counts tid pinfo rnd d fp (k # ks) w0 = Inl e"
  by (auto simp: surviving_combinations_def split: sum.splits prod.splits)

lemma try_path_counts_next:
  assumes "surviving_combinations pinfo fp k = Inr []"
  shows "\<exists>combs weighted w'.
           pchids_per_path_combinations fp k = Inr combs \<and>
           calculate_weight pinfo combs = Inr (weighted, w') \<and>
           try_path_counts tid pinfo rnd d fp (k # ks) w0 =
             try_path_counts tid pinfo rnd d fp ks w'"
proof -
  from assms obtain combs weighted w' where
    c: "pchids_per_path_combinations fp k = Inr combs"
    and cal: "calculate_weight pinfo combs = Inr (weighted, w')"
    and v: "remove_invalid_weight weighted = []"
    unfolding surviving_combinations_Inr by metis
  then show ?thesis by simp
qed

lemma try_path_counts_found:
  assumes "surviving_combinations pinfo fp k = Inr valid" and "valid \<noteq> []"
  shows "\<exists>w'. try_path_counts tid pinfo rnd d fp (k # ks) w0 =
           (case random_choice (rnd 0) (select_most_distributed_pchids (select_max_weight valid)) of
              Inl e \<Rightarrow> Inl e
            | Inr final \<Rightarrow>
                (case get_one_random_fcp_combinations tid final rnd d of
                   Inl e \<Rightarrow> Inl e
                 | Inr fcp_list \<Rightarrow> Inr (fcp_list, w')))"
proof -
  from assms(1) obtain combs weighted w' where
    c: "pchids_per_path_combinations fp k = Inr combs"
    and cal: "calculate_weight pinfo combs = Inr (weighted, w')"
    and v: "valid = remove_invalid_weight weighted"
    unfolding surviving_combinations_Inr by metis
  with assms(2) show ?thesis by (intro exI[of _ w']) (simp add: Let_def)
qed

text \<open>A device list that is not empty comes from the first count with survivors.\<close>

lemma try_path_counts_Inr:
  "try_path_counts tid pinfo rnd d fp ks w0 = Inr (fcp_list, w) \<Longrightarrow> fcp_list \<noteq> [] \<Longrightarrow>
   \<exists>pre k post valid final.
     ks = pre @ k # post \<and> (\<forall>k'\<in>set pre. surviving_combinations pinfo fp k' = Inr []) \<and>
     surviving_combinations pinfo fp k = Inr valid \<and> valid \<noteq> [] \<and>
     final \<in> set (select_most_distributed_pchids (select_max_weight valid)) \<and>
     get_one_random_fcp_combinations tid final rnd d = Inr fcp_list"
proof (induction ks arbitrary: w0)
  case Nil
  then show ?case by simp
next
  case (Cons k ks)
  show ?case
  proof (cases "surviving_combinations pinfo fp k")
    case (Inl e)
    from try_path_counts_error[OF Inl] Cons.prems show ?thesis by simp
  next
    case (Inr valid)
    show ?thesis
    proof (cases "valid = []")
      case True
      with Inr have s: "surviving_combinations pinfo fp k = Inr []" by simp
      from try_path_counts_next[OF s, of tid rnd d ks w0] obtain w' where
        "try_path_counts tid pinfo rnd d fp (k # ks) w0 = try_path_counts tid pinfo rnd d fp ks w'"
        by blast
      with Cons.prems have "try_path_counts tid pinfo rnd d fp ks w' = Inr (fcp_list, w)" by simp
      from Cons.IH[OF this Cons.prems(2)] obtain pre k' post valid' final where
        "ks = pre @ k' # post" "\<forall>x\<in>set pre. surviving_combinations pinfo fp x = Inr []"
        "surviving_combinations pinfo fp k' = Inr valid'" "valid' \<noteq> []"
        "final \<in> set (select_most_distributed_pchids (select_max_weight valid'))"
        "get_one_random_fcp_combinations tid final rnd d = Inr fcp_list" by blast
      with s show ?thesis
        by (intro exI[of _ "k # pre"] exI[of _ k'] exI[of _ post] exI[of _ valid'] exI[of _ final])
           simp
    next
      case False
      from try_path_counts_found[OF Inr False, of tid rnd d ks w0] obtain w' where
        t: "try_path_counts tid pinfo rnd d fp (k # ks) w0 =
           (case random_choice (rnd 0) (select_most_distributed_pchids (select_max_weight valid)) of
              Inl e \<Rightarrow> Inl e
            | Inr final \<Rightarrow>
                (case get_one_random_fcp_combinations tid final rnd d of
                   Inl e \<Rightarrow> Inl e
                 | Inr fcp_list \<Rightarrow> Inr (fcp_list, w')))" by blast
      with Cons.prems(1) obtain final where
        f: "random_choice (rnd 0) (select_most_distributed_pchids (select_max_weight valid)) = Inr final"
        and g: "get_one_random_fcp_combinations tid final rnd d = Inr fcp_list"
        by (auto split: sum.splits)
      from random_choice_in[OF f] Inr False g show ?thesis
        by (intro exI[of _ "[]"] exI[of _ k] exI[of _ ks] exI[of _ valid] exI[of _ final]) simp
    qed
  qed
qed



subsection \<open>The path counts, largest first\<close>

lemma rev_upto_split:
  assumes "m \<le> k" "k \<le> n"
  shows "rev [m..n] = rev [k + 1..n] @ k # rev [m..k - 1]"
proof -
  from assms have "[m..n] = [m..k - 1] @ [k..n]" by (intro upto_split1) auto
  also from assms have "[k..n] = k # [k + 1..n]" by (simp add: upto_rec1)
  finally show ?thesis by simp
qed

lemma takeWhile_until:
  "k \<notin> set xs \<Longrightarrow> takeWhile (\<lambda>x. x \<noteq> k) (xs @ k # ys) = xs"
  by (induction xs) auto

lemma rev_upto_decompose:
  assumes "rev [m..n] = pre @ k # post"
  shows "m \<le> k" and "k \<le> n" and "set pre = {k<..n}"
proof -
  from assms have "k \<in> set (rev [m..n])" by simp
  then show mk: "m \<le> k" and kn: "k \<le> n" by auto
  have "distinct (rev [m..n])" by simp
  with assms have nk: "k \<notin> set pre" by auto
  from nk have "takeWhile (\<lambda>x. x \<noteq> k) (pre @ k # post) = pre"
    by (rule takeWhile_until)
  moreover have "k \<notin> set (rev [k + 1..n])" by simp
  then have "takeWhile (\<lambda>x. x \<noteq> k) (rev [k + 1..n] @ k # rev [m..k - 1]) = rev [k + 1..n]"
    by (rule takeWhile_until)
  ultimately have "pre = rev [k + 1..n]"
    using assms rev_upto_split[OF mk kn] by simp
  then show "set pre = {k<..n}" by auto
qed

lemma get_fcp_conn_read:
  "fst (get_fcp_conn (\<lambda>d0. (f d0, d0)) d) =
     (case f d of Inl e \<Rightarrow> Inl (reraise e) | Inr v \<Rightarrow> Inr v)"
  by (simp add: get_fcp_conn_def split: sum.splits)

section \<open>Strategy B as a whole\<close>

text \<open>
  When \<^verbatim>\<open>get_fcp_devices\<close> returns devices: the path count, the surviving combinations
  and the combination they come from.
\<close>

lemma get_fcp_devices_selected:
  assumes res: "get_fcp_devices tid pinfo rnd d = Inr (fcp_list, r)" and ne: "fcp_list \<noteq> []"
  shows "\<exists>m k valid final w.
      get_min_fcp_paths_count tid d = Inr m \<and> m \<le> k \<and>
      k \<le> int (length (get_free_pchids_by_fcp_template tid d)) \<and>
      (\<forall>k'. k < k' \<and> k' \<le> int (length (get_free_pchids_by_fcp_template tid d)) \<longrightarrow>
            surviving_combinations pinfo (get_free_pchids_by_fcp_template tid d) k' = Inr []) \<and>
      surviving_combinations pinfo (get_free_pchids_by_fcp_template tid d) k = Inr valid \<and>
      (final, w) \<in> set valid \<and>
      (\<forall>(c, w')\<in>set valid. w' \<le> w) \<and>
      (\<forall>(c, w')\<in>set valid. w' = w \<longrightarrow>
           length (remdups (map snd c)) \<le> length (remdups (map snd final))) \<and>
      spec_weight_of_combination pinfo final = Some w \<and> 1 \<le> w \<and>
      length final = nat k \<and> 1 \<le> k \<and> distinct (map fst final) \<and>
      map i_path fcp_list = map fst final \<and> map i_pchid fcp_list = map snd final \<and>
      (\<forall>item\<in>set fcp_list. \<exists>(m, r)\<in>set (free_join tid d). item = item_of (m, r)) \<and>
      r = No_reason"
proof -
  define fp where "fp = get_free_pchids_by_fcp_template tid d"
  have dfp: "distinct (map fst fp)" unfolding fp_def by (rule free_pchids_distinct)
  from res ne have fpne: "fp \<noteq> []"
    by (auto simp: get_fcp_devices_def get_fcp_conn_read Let_def fp_def split: if_splits)
  from res ne fpne obtain m where m: "get_min_fcp_paths_count tid d = Inr m"
    by (cases "get_min_fcp_paths_count tid d")
       (auto simp: get_fcp_devices_def get_fcp_conn_read Let_def fp_def split: if_splits)
  from res ne fpne m have mn: "\<not> int (length fp) < m"
    by (auto simp: get_fcp_devices_def get_fcp_conn_read Let_def fp_def split: if_splits)
  from res ne fpne m mn obtain w0 where
    t: "try_path_counts tid pinfo rnd d fp (rev [m..int (length fp)]) [] = Inr (fcp_list, w0)"
    and r: "r = No_reason"
    by (auto simp: get_fcp_devices_def get_fcp_conn_read Let_def fp_def
             split: if_splits sum.splits)
  from try_path_counts_Inr[OF t ne] obtain pre k post valid final where
    ks: "rev [m..int (length fp)] = pre @ k # post"
    and pre: "\<forall>k'\<in>set pre. surviving_combinations pinfo fp k' = Inr []"
    and s: "surviving_combinations pinfo fp k = Inr valid" and vne: "valid \<noteq> []"
    and fin: "final \<in> set (select_most_distributed_pchids (select_max_weight valid))"
    and g: "get_one_random_fcp_combinations tid final rnd d = Inr fcp_list" by blast
  note dec = rev_upto_decompose[OF ks]
  from select_final(2)[OF vne fin] obtain w where
    fw: "(final, w) \<in> set valid" and mx: "\<forall>(c, w')\<in>set valid. w' \<le> w"
    and md: "\<forall>(c, w')\<in>set valid. w' = w \<longrightarrow>
           length (remdups (map snd c)) \<le> length (remdups (map snd final))" by blast
  note p = surviving_combinations_props[OF s dfp fw]
  from p(4) have inf: "\<forall>(path, p)\<in>set final.
      \<exists>ps. (path, ps) \<in> set (get_free_pchids_by_fcp_template tid d) \<and> p \<in> set ps"
    unfolding fp_def .
  note go = get_one_random_Inr[OF g p(3) comb_of_free_pchids(1)[OF inf]]
  from go(1) p(2) ne have k1: "1 \<le> k" by (cases "k \<le> 0") auto
  have larger: "\<forall>k'. k < k' \<and> k' \<le> int (length fp) \<longrightarrow>
            surviving_combinations pinfo fp k' = Inr []"
    using pre dec(3) by auto
  have mp: "map i_path fcp_list = map fst final"
    using go by (auto simp: list_eq_iff_nth_eq)
  have mc: "map i_pchid fcp_list = map snd final"
    using go by (auto simp: list_eq_iff_nth_eq)
  have av: "\<forall>item\<in>set fcp_list. \<exists>(m, r)\<in>set (free_join tid d). item = item_of (m, r)"
  proof
    fix item assume "item \<in> set fcp_list"
    then obtain i where "i < length fcp_list" "item = fcp_list ! i"
      by (auto simp: in_set_conv_nth)
    with go show "\<exists>(m, r)\<in>set (free_join tid d). item = item_of (m, r)" by auto
  qed
  from m dec(1,2) larger s fw mx md p(5,6) p(2) k1 p(3) mp mc av r
  show ?thesis unfolding fp_def by blast
qed







section \<open>Strategy B and capacity\<close>



section \<open>Strategy B and the number of paths\<close>



text \<open>
  Strategy B, for its part, returns available devices only: each device of the list is
  a row of the template's join that met the five conditions when it was read.
\<close>

lemma get_fcp_devices_returns_available:
  assumes "get_fcp_devices tid pinfo rnd d = Inr (fcp_list, r)" and "item \<in> set fcp_list"
  shows "\<exists>(m, r)\<in>set (template_join tid d). available r \<and> item = item_of (m, r)"
proof -
  from assms(2) have ne: "fcp_list \<noteq> []" by auto
  from get_fcp_devices_selected[OF assms(1) ne] assms(2)
  have "\<exists>(m, r)\<in>set (free_join tid d). item = item_of (m, r)" by blast
  then show ?thesis by (auto simp: free_join_def)
qed

section \<open>Template Manager: removing devices from a template\<close>



























end
